theory Spec2Isabelle
  imports Complex_Main "HOL-Library.Sublist"
begin

section \<open>JavaScript values\<close>

text \<open>
  A JavaScript string is the list of its UTF-16 code units. \<open>lit\<close> gives the code
  units of a literal of the source, which is ASCII throughout.
\<close>

type_synonym jsstring = "nat list"

definition lit :: "string \<Rightarrow> jsstring" where
  "lit s = map of_char s"

definition cu :: "char \<Rightarrow> nat" where
  "cu c = of_char c"

text \<open>
  A JavaScript number. A finite double is held as the rational it denotes; the rationals
  that are no doubles are more values than the code can meet. The two zeros are held
  as one, since nothing here tells them apart.
\<close>

datatype jsnum = Finite rat | PosInfinity | NegInfinity | NaN

text \<open>
  The fetchers read third-party JSON typed \<open>any\<close>, so the payloads are untyped
  JavaScript values.
\<close>

datatype jsval =
    JUndefined
  | JNull
  | JBool bool
  | JNum jsnum
  | JStr jsstring
  | JArr "jsval list"
  | JObj "(jsstring \<times> jsval) list"

text \<open>ToBoolean, as used by \<open>||\<close>, \<open>&&\<close>, \<open>!\<close>, \<open>?:\<close> and \<open>if\<close>.\<close>

fun truthy :: "jsval \<Rightarrow> bool" where
  "truthy JUndefined = False"
| "truthy JNull = False"
| "truthy (JBool b) = b"
| "truthy (JNum (Finite r)) = (r \<noteq> 0)"
| "truthy (JNum NaN) = False"
| "truthy (JNum x) = True"
| "truthy (JStr s) = (s \<noteq> [])"
| "truthy (JArr xs) = True"
| "truthy (JObj kvs) = True"

fun nullish :: "jsval \<Rightarrow> bool" where
  "nullish JUndefined = True"
| "nullish JNull = True"
| "nullish v = False"

text \<open>\<open>a || b\<close> on values (both operands here are free of effects).\<close>

definition js_or :: "jsval \<Rightarrow> jsval \<Rightarrow> jsval" where
  "js_or a b = (if truthy a then a else b)"

text \<open>
  The own property \<open>k\<close> of an object made by JSON.parse, which keeps the last of
  several equal keys.
\<close>

definition own_property :: "(jsstring \<times> jsval) list \<Rightarrow> string \<Rightarrow> jsval option" where
  "own_property kvs k = map_of (rev kvs) (lit k)"

text \<open>
  \<open>v.k\<close> for a \<open>v\<close> that is neither \<open>undefined\<close> nor \<open>null\<close>, and a property
  name \<open>k\<close> of the source. Arrays and strings have a \<open>length\<close>; none of the other
  property names the service reads exists on a prototype.
\<close>

fun fld :: "jsval \<Rightarrow> string \<Rightarrow> jsval" where
  "fld (JObj kvs) k = (case own_property kvs k of None \<Rightarrow> JUndefined | Some v \<Rightarrow> v)"
| "fld (JArr xs) k =
     (if k = ''length'' then JNum (Finite (of_nat (length xs))) else JUndefined)"
| "fld (JStr s) k =
     (if k = ''length'' then JNum (Finite (of_nat (length s))) else JUndefined)"
| "fld v k = JUndefined"

text \<open>\<open>v?.k\<close>\<close>

definition opt_prop :: "jsval \<Rightarrow> string \<Rightarrow> jsval" where
  "opt_prop v k = (if nullish v then JUndefined else fld v k)"

text \<open>\<open>v?.[0]\<close>\<close>

fun opt_idx0 :: "jsval \<Rightarrow> jsval" where
  "opt_idx0 (JArr []) = JUndefined"
| "opt_idx0 (JArr (x # xs)) = x"
| "opt_idx0 (JStr []) = JUndefined"
| "opt_idx0 (JStr (c # cs)) = JStr [c]"
| "opt_idx0 (JObj kvs) = fld (JObj kvs) ''0''"
| "opt_idx0 v = JUndefined"

text \<open>
  \<open>xs.map(f)\<close> where \<open>f\<close> may raise: the first raise aborts the whole map. A receiver
  that is not an array has no callable \<open>map\<close>, which is a TypeError as well.
\<close>

fun map_or_throw :: "('a \<Rightarrow> 'b option) \<Rightarrow> 'a list \<Rightarrow> 'b list option" where
  "map_or_throw f [] = Some []"
| "map_or_throw f (x # xs) =
     (case f x of
        None \<Rightarrow> None
      | Some y \<Rightarrow> (case map_or_throw f xs of None \<Rightarrow> None | Some ys \<Rightarrow> Some (y # ys)))"

fun js_map :: "(jsval \<Rightarrow> 'b option) \<Rightarrow> jsval \<Rightarrow> 'b list option" where
  "js_map f (JArr xs) = map_or_throw f xs"
| "js_map f v = None"

text \<open>The decimal numeral of a natural number.\<close>

fun digits :: "nat \<Rightarrow> jsstring" where
  "digits n = (if n < 10 then [48 + n] else digits (n div 10) @ [48 + n mod 10])"

text \<open>
  Number-to-string. An integer of magnitude below \<open>2^53\<close> is printed as its decimal
  numeral, and the three values that are not finite by name. Every other number is
  printed as the shortest numeral that reads back as the same double, in exponent form
  from \<open>1e21\<close> on: that is left to the parameter \<open>other\<close>.
\<close>

definition number_to_string :: "(jsnum \<Rightarrow> jsstring) \<Rightarrow> jsnum \<Rightarrow> jsstring" where
  "number_to_string other x =
     (case x of
        Finite r \<Rightarrow>
          if r = of_int \<lfloor>r\<rfloor> \<and> \<bar>\<lfloor>r\<rfloor>\<bar> < 2 ^ 53 then
            (if \<lfloor>r\<rfloor> < 0 then cu CHR ''-'' # digits (nat (- \<lfloor>r\<rfloor>)) else digits (nat \<lfloor>r\<rfloor>))
          else other x
      | PosInfinity \<Rightarrow> lit ''Infinity''
      | NegInfinity \<Rightarrow> lit ''-Infinity''
      | NaN \<Rightarrow> lit ''NaN'')"

text \<open>\<open>Array.prototype.join\<close> with the default separator.\<close>

fun join_comma :: "jsstring list \<Rightarrow> jsstring" where
  "join_comma [] = []"
| "join_comma [s] = s"
| "join_comma (s # t # ss) = s @ lit '','' @ join_comma (t # ss)"

text \<open>
  ToString, as a template literal applies it; \<open>None\<close> is a TypeError. An array is
  joined, with \<open>undefined\<close> and \<open>null\<close> elements as empty strings. An object made by
  JSON.parse prints as \<open>[object Object]\<close> through \<open>Object.prototype.toString\<close>,
  unless it has an own property \<open>toString\<close>: that is no function, and
  \<open>valueOf\<close>, own or inherited, gives no primitive either, so the conversion raises.
\<close>

fun js_to_string :: "(jsnum \<Rightarrow> jsstring) \<Rightarrow> jsval \<Rightarrow> jsstring option" where
  "js_to_string other JUndefined = Some (lit ''undefined'')"
| "js_to_string other JNull = Some (lit ''null'')"
| "js_to_string other (JBool b) = Some (if b then lit ''true'' else lit ''false'')"
| "js_to_string other (JNum x) = Some (number_to_string other x)"
| "js_to_string other (JStr s) = Some s"
| "js_to_string other (JArr xs) =
     map_option join_comma
       (those (map (\<lambda>x. if x = JUndefined \<or> x = JNull then Some []
                          else js_to_string other x) xs))"
| "js_to_string other (JObj kvs) =
     (case own_property kvs ''toString'' of
        None \<Rightarrow> Some (lit ''[object Object]'')
      | Some f \<Rightarrow> None)"

section \<open>Strings\<close>

definition is_upper :: "nat \<Rightarrow> bool" where
  "is_upper c = (65 \<le> c \<and> c \<le> 90)"

definition ascii_lower :: "nat \<Rightarrow> nat" where
  "ascii_lower c = (if is_upper c then c + 32 else c)"

text \<open>
  \<open>String.prototype.toLowerCase\<close>. On an ASCII string it turns A-Z into a-z and keeps
  the rest. On a string with other code units the result comes from the Unicode tables
  of the runtime: the parameter \<open>beyond\<close>.
\<close>

definition toLowerCase :: "(jsstring \<Rightarrow> jsstring) \<Rightarrow> jsstring \<Rightarrow> jsstring" where
  "toLowerCase beyond s = (if list_all (\<lambda>c. c < 128) s then map ascii_lower s else beyond s)"

text \<open>\<open>s.includes(sub)\<close>, named \<open>str_includes\<close> as \<open>includes\<close> is an Isar keyword\<close>

fun str_includes :: "jsstring \<Rightarrow> jsstring \<Rightarrow> bool" where
  "str_includes [] sub = (sub = [])"
| "str_includes (c # cs) sub = (prefix sub (c # cs) \<or> str_includes cs sub)"

text \<open>The character classes of the regular expressions, on code units.\<close>

definition is_lower :: "nat \<Rightarrow> bool" where
  "is_lower c = (97 \<le> c \<and> c \<le> 122)"

definition is_alnum :: "nat \<Rightarrow> bool" where
  "is_alnum c = ((97 \<le> c \<and> c \<le> 122) \<or> (65 \<le> c \<and> c \<le> 90) \<or> (48 \<le> c \<and> c \<le> 57))"

definition is_list_char :: "nat \<Rightarrow> bool" where
  "is_list_char c = (is_alnum c \<or> c = cu CHR ''_'' \<or> c = cu CHR ''-'')"

text \<open>
  \<open>\s\<close>: tab, line feed, vertical tab, form feed, carriage return, space, no-break
  space, U+1680, U+2000 to U+200A, U+2028, U+2029, U+202F, U+205F, U+3000 and U+FEFF.
\<close>

definition is_space :: "nat \<Rightarrow> bool" where
  "is_space c =
     ((9 \<le> c \<and> c \<le> 13) \<or> c = 32 \<or> c = 160 \<or> c = 5760 \<or> (8192 \<le> c \<and> c \<le> 8202) \<or>
      c = 8232 \<or> c = 8233 \<or> c = 8239 \<or> c = 8287 \<or> c = 12288 \<or> c = 65279)"

text \<open>The rest of \<open>s\<close> behind a literal \<open>p\<close>, when \<open>s\<close> starts with it.\<close>

definition after :: "string \<Rightarrow> jsstring \<Rightarrow> jsstring option" where
  "after p s = (if prefix (lit p) s then Some (drop (length p) s) else None)"

text \<open>The text before the first occurrence of \<open>sub\<close>, as a lazy \<open>.*?\<close> finds it.\<close>

fun before_first :: "jsstring \<Rightarrow> jsstring \<Rightarrow> jsstring option" where
  "before_first sub [] = (if sub = [] then Some [] else None)"
| "before_first sub (c # cs) =
     (if prefix sub (c # cs) then Some []
      else (case before_first sub cs of None \<Rightarrow> None | Some b \<Rightarrow> Some (c # b)))"

section \<open>URL parsers\<close>

text \<open>
  \<open>url.match(/playlist\/([a-zA-Z0-9]+)/)\<close>: the leftmost position where the literal is
  followed by at least one alphanumeric; the group is the longest such run.
\<close>

fun parseSpotifyUrl :: "jsstring \<Rightarrow> jsstring option" where
  "parseSpotifyUrl [] = None"
| "parseSpotifyUrl (c # cs) =
     (case after ''playlist/'' (c # cs) of
        None \<Rightarrow> parseSpotifyUrl cs
      | Some r \<Rightarrow>
          if takeWhile is_alnum r \<noteq> [] then Some (takeWhile is_alnum r)
          else parseSpotifyUrl cs)"

text \<open>
  \<open>/music\.apple\.com\/([a-z]{2})\/playlist\/[^\/]+\/(pl\.[a-zA-Z0-9]+)/\<close> tried at the
  head of the string. \<open>[^\/]+\<close> has to end at the next slash, so no backtracking
  is involved.
\<close>

record apple_ref =
  storefront :: jsstring
  id' :: jsstring

definition apple_match_here :: "jsstring \<Rightarrow> apple_ref option" where
  "apple_match_here s =
     (case after ''music.apple.com/'' s of
        None \<Rightarrow> None
      | Some r1 \<Rightarrow>
          (case r1 of
             a # b # r2 \<Rightarrow>
               if is_lower a \<and> is_lower b then
                 (case after ''/playlist/'' r2 of
                    None \<Rightarrow> None
                  | Some r3 \<Rightarrow>
                      if takeWhile (\<lambda>c. c \<noteq> cu CHR ''/'') r3 = [] then None
                      else
                        (case after ''/pl.'' (dropWhile (\<lambda>c. c \<noteq> cu CHR ''/'') r3) of
                           None \<Rightarrow> None
                         | Some r4 \<Rightarrow>
                             if takeWhile is_alnum r4 = [] then None
                             else Some \<lparr>storefront = [a, b],
                                        id' = lit ''pl.'' @ takeWhile is_alnum r4\<rparr>))
               else None
           | _ \<Rightarrow> None))"

fun parseAppleMusicUrl :: "jsstring \<Rightarrow> apple_ref option" where
  "parseAppleMusicUrl [] = None"
| "parseAppleMusicUrl (c # cs) =
     (case apple_match_here (c # cs) of
        Some r \<Rightarrow> Some r
      | None \<Rightarrow> parseAppleMusicUrl cs)"

text \<open>\<open>/[?&]list=([a-zA-Z0-9_-]+)/\<close>\<close>

fun parseYouTubeMusicUrl :: "jsstring \<Rightarrow> jsstring option" where
  "parseYouTubeMusicUrl [] = None"
| "parseYouTubeMusicUrl (c # cs) =
     (if c = cu CHR ''?'' \<or> c = cu CHR ''&'' then
        (case after ''list='' cs of
           None \<Rightarrow> parseYouTubeMusicUrl cs
         | Some r \<Rightarrow>
             if takeWhile is_list_char r \<noteq> [] then Some (takeWhile is_list_char r)
             else parseYouTubeMusicUrl cs)
      else parseYouTubeMusicUrl cs)"

text \<open>
  \<open>html.match(/<script[^>]*>Spotify\s*=\s*(\{.*?\});<\/script>/s)\<close>, group 1. Each
  greedy part is followed by a character it cannot match itself, and the lazy part
  ends at the first \<open>};</script>\<close>, so the match at a position is unique.
\<close>

definition embed_match_here :: "jsstring \<Rightarrow> jsstring option" where
  "embed_match_here s =
     (case after ''<script'' s of
        None \<Rightarrow> None
      | Some r1 \<Rightarrow>
          (case after ''>Spotify'' (dropWhile (\<lambda>c. c \<noteq> cu CHR ''>'') r1) of
             None \<Rightarrow> None
           | Some r2 \<Rightarrow>
               (case after ''='' (dropWhile is_space r2) of
                  None \<Rightarrow> None
                | Some r3 \<Rightarrow>
                    (case after ''{'' (dropWhile is_space r3) of
                       None \<Rightarrow> None
                     | Some r4 \<Rightarrow>
                         (case before_first (lit ''};</script>'') r4 of
                            None \<Rightarrow> None
                          | Some body \<Rightarrow> Some (lit ''{'' @ body @ lit ''}''))))))"

fun embed_script_match :: "jsstring \<Rightarrow> jsstring option" where
  "embed_script_match [] = None"
| "embed_script_match (c # cs) =
     (case embed_match_here (c # cs) of
        Some m \<Rightarrow> Some m
      | None \<Rightarrow> embed_script_match cs)"

section \<open>Data model\<close>

datatype ImportPlatform = Spotify | Apple | YouTube | Unknown

record ImportedTrack =
  title :: jsval
  artist :: jsval
  album :: jsval
  duration :: jsval

text \<open>The \<open>{name, tracks}\<close> payload of a fetcher.\<close>

record playlist_data =
  name :: jsval
  tracks :: "ImportedTrack list"

text \<open>
  Modelled from the spec: \<open>MusicTrack\<close> is declared in \<open>./hifi\<close>, which is not among the
  sources. The fields are the ones the spec lists as consumed (id, title, artist,
  artistId, album, albumId, duration, coverArt).
\<close>

record MusicTrack =
  id' :: jsval
  title :: jsval
  artist :: jsval
  artistId :: jsval
  album :: jsval
  albumId :: jsval
  duration :: jsval
  coverArt :: jsval

text \<open>
  Modelled from the spec: \<open>PlaylistTrack\<close>, \<open>UserPlaylist\<close> and \<open>StorageService\<close> are
  declared in \<open>./storage\<close>, which is not among the sources. \<open>PlaylistTrack\<close> has the
  fields \<open>matchTrack\<close> writes. \<open>UserPlaylist\<close> has the three fields \<open>importPlaylist\<close>
  writes; \<open>stored\<close> stands for whatever else \<open>createPlaylist\<close> assigned (identity,
  defaults), which the spread \<open>...newPlaylist\<close> carries over.
\<close>

record PlaylistTrack =
  id' :: jsval
  source :: jsstring
  title :: jsval
  artist :: jsval
  artistId :: jsval
  album :: jsval
  albumId :: jsval
  duration :: jsval
  coverArt :: jsval
  addedAt :: int
  originalTitle :: jsval
  originalArtist :: jsval
  matchConfidence :: nat

record import_source =
  platform :: ImportPlatform
  originalId :: jsstring
  originalName :: jsval

record UserPlaylist =
  stored :: jsval
  tracks :: "PlaylistTrack list"
  coverArt :: jsval
  importSource :: "import_source option"

record ImportResult =
  success :: bool
  playlist :: "UserPlaylist option"
  totalTracks :: nat
  matchedTracks :: nat
  unmatchedTracks :: "ImportedTrack list"
  error :: "jsstring option"

datatype import_stage = Fetching | Matching | Saving | Done | Error

record ImportProgress =
  stage :: import_stage
  current :: nat
  total :: nat
  message :: jsstring

section \<open>The environment\<close>

record request =
  target :: jsstring
  headers :: "(string \<times> string) list"

text \<open>
  A response: \<open>ok\<close>, and what \<open>json()\<close> and \<open>text()\<close> resolve to (\<open>None\<close> when they
  reject).
\<close>

record response =
  ok :: bool
  json_body :: "jsval option"
  text_body :: "jsstring option"

text \<open>
  Modelled from the spec: a catalog search resolves to \<open>{tracks: CatalogTrack[]}\<close> or
  none, and may fail. \<open>Results None\<close> is a result without a track list.
\<close>

datatype search_reply = Rejected | Nullish | Results "MusicTrack list option"

text \<open>What one invocation does to the outside world, in order.\<close>

datatype event =
    Fetch request
  | SearchQobuz jsstring
  | SearchTidal jsstring
  | Progress ImportProgress
  | Sleep nat
  | CreatePlaylist jsval
  | UpdatePlaylist UserPlaylist

text \<open>
  The collaborators and the runtime. Each answer of a collaborator may depend on
  everything that happened before the call; \<open>None\<close> and \<open>False\<close> are a rejected
  promise. Of the runtime:
  \<^item> \<open>JSON_parse\<close> is \<open>None\<close> on a SyntaxError;
  \<^item> \<open>Math_floor_div_1000\<close> is \<open>Math.floor(x / 1000)\<close>, which converts \<open>x\<close> to
    a number (a TypeError, \<open>None\<close>, for some objects) and divides in double arithmetic;
  \<^item> \<open>number_beyond\<close> prints the numbers that are no small integers;
  \<^item> \<open>lower_beyond\<close> is \<open>toLowerCase\<close> on the strings that are not ASCII.
\<close>

record env =
  fetch :: "event list \<Rightarrow> request \<Rightarrow> response option"
  searchQobuzOnly :: "event list \<Rightarrow> jsstring \<Rightarrow> search_reply"
  searchTidalOnly :: "event list \<Rightarrow> jsstring \<Rightarrow> search_reply"
  now :: "event list \<Rightarrow> int"
  createPlaylist :: "event list \<Rightarrow> jsval \<Rightarrow> UserPlaylist option"
  updatePlaylist :: "event list \<Rightarrow> UserPlaylist \<Rightarrow> bool"
  JSON_parse :: "jsstring \<Rightarrow> jsval option"
  Math_floor_div_1000 :: "jsval \<Rightarrow> jsval option"
  number_beyond :: "jsnum \<Rightarrow> jsstring"
  lower_beyond :: "jsstring \<Rightarrow> jsstring"

text \<open>The \<open>${v}\<close> of a template literal.\<close>

definition to_string :: "env \<Rightarrow> jsval \<Rightarrow> jsstring option" where
  "to_string e v = js_to_string (number_beyond e) v"

text \<open>
  \<open>onProgress?.(p)\<close>: the callback, when there is one, receives the event. It is the
  caller's code and is taken to return normally.
\<close>

definition emit :: "bool \<Rightarrow> ImportProgress \<Rightarrow> event list \<Rightarrow> event list" where
  "emit onProgress p tr = (if onProgress then tr @ [Progress p] else tr)"

section \<open>URL classifier\<close>

definition detectPlatform :: "env \<Rightarrow> jsstring \<Rightarrow> ImportPlatform" where
  "detectPlatform e url =
     (let lowerUrl = toLowerCase (lower_beyond e) url
      in if str_includes lowerUrl (lit ''spotify.com'') \<or>
            str_includes lowerUrl (lit ''spotify.link'') then Spotify
         else if str_includes lowerUrl (lit ''music.apple.com'') \<or>
                 str_includes lowerUrl (lit ''itunes.apple.com'') then Apple
         else if str_includes lowerUrl (lit ''music.youtube.com'') \<or>
                 str_includes lowerUrl (lit ''youtube.com/playlist'') then YouTube
         else Unknown)"

section \<open>Provider fetchers\<close>

text \<open>
  Every \<open>try\<close> block of a fetcher is a function to \<open>option\<close>: \<open>Some\<close> is the
  \<open>return\<close> inside the block, \<open>None\<close> is the block ending without one, by falling
  out of its conditions or through its \<open>catch\<close> (which only logs; console output is
  not modelled).
\<close>

text \<open>The predicate of \<open>.filter((t: ImportedTrack) => t.title && t.artist)\<close>.\<close>

definition has_title_and_artist :: "ImportedTrack \<Rightarrow> bool" where
  "has_title_and_artist t = (truthy (ImportedTrack.title t) \<and> truthy (ImportedTrack.artist t))"

subsection \<open>Spotify\<close>

definition spotifydown_track :: "jsval \<Rightarrow> ImportedTrack option" where
  "spotifydown_track t =
     (if nullish t then None
      else Some \<lparr>ImportedTrack.title = js_or (js_or (fld t ''title'') (fld t ''name'')) (JStr []),
                 ImportedTrack.artist = js_or (js_or (fld t ''artists'') (fld t ''artist'')) (JStr []),
                 ImportedTrack.album = js_or (fld t ''album'') (JStr []),
                 ImportedTrack.duration =
                   js_or (js_or (fld t ''durationSec'') (fld t ''duration'')) (JNum (Finite 0))\<rparr>)"

text \<open>
  The first \<open>try\<close> block from the resolved response on. When \<open>trackList\<close> is truthy
  and not an array, \<open>length > 0\<close> is false or raises, or \<open>.map\<close> is a TypeError;
  the block ends without a \<open>return\<close> in each case.
\<close>

definition spotifydown_attempt :: "response \<Rightarrow> playlist_data option" where
  "spotifydown_attempt metaResponse =
     (if ok metaResponse then
        (case json_body metaResponse of
           None \<Rightarrow> None
         | Some metaData \<Rightarrow>
             if nullish metaData then None
             else if truthy (fld metaData ''success'') \<and> truthy (fld metaData ''trackList'') then
               (case fld metaData ''trackList'' of
                  JArr trackList \<Rightarrow>
                    if length trackList > 0 then
                      (case map_or_throw spotifydown_track trackList of
                         None \<Rightarrow> None
                       | Some mapped \<Rightarrow>
                           Some \<lparr>name = js_or (fld metaData ''title'')
                                          (JStr (lit ''Spotify Playlist'')),
                                 playlist_data.tracks = filter has_title_and_artist mapped\<rparr>)
                    else None
                | _ \<Rightarrow> None)
             else None)
      else None)"

definition scraper_track :: "env \<Rightarrow> jsval \<Rightarrow> ImportedTrack option" where
  "scraper_track e item =
     (if nullish item then None
      else
        (case Math_floor_div_1000 e
                (js_or (js_or (opt_prop (fld item ''track'') ''duration_ms'')
                          (fld item ''duration_ms''))
                   (JNum (Finite 0))) of
           None \<Rightarrow> None
         | Some seconds \<Rightarrow>
             Some \<lparr>ImportedTrack.title =
                     js_or (js_or (opt_prop (fld item ''track'') ''name'') (fld item ''name''))
                       (JStr []),
                   ImportedTrack.artist =
                     js_or (js_or (opt_prop (opt_idx0 (opt_prop (fld item ''track'') ''artists''))
                                     ''name'')
                              (opt_prop (opt_idx0 (fld item ''artists'')) ''name''))
                       (JStr []),
                   ImportedTrack.album =
                     js_or (js_or (opt_prop (opt_prop (fld item ''track'') ''album'') ''name'')
                              (opt_prop (fld item ''album'') ''name''))
                       (JStr []),
                   ImportedTrack.duration = seconds\<rparr>))"

definition scraper_attempt :: "env \<Rightarrow> response \<Rightarrow> playlist_data option" where
  "scraper_attempt e response =
     (if ok response then
        (case json_body response of
           None \<Rightarrow> None
         | Some data \<Rightarrow>
             if nullish data then None
             else if truthy (fld data ''tracks'') \<and> truthy (fld (fld data ''tracks'') ''items'') then
               (case fld (fld data ''tracks'') ''items'' of
                  JArr items \<Rightarrow>
                    if length items > 0 then
                      (case map_or_throw (scraper_track e) items of
                         None \<Rightarrow> None
                       | Some mapped \<Rightarrow>
                           Some \<lparr>name = js_or (fld data ''name'') (JStr (lit ''Spotify Playlist'')),
                                 playlist_data.tracks = filter has_title_and_artist mapped\<rparr>)
                    else None
                | _ \<Rightarrow> None)
             else None)
      else None)"

definition embed_track :: "env \<Rightarrow> jsval \<Rightarrow> ImportedTrack option" where
  "embed_track e t =
     (if nullish t then None
      else
        (case Math_floor_div_1000 e (js_or (fld t ''duration_ms'') (JNum (Finite 0))) of
           None \<Rightarrow> None
         | Some seconds \<Rightarrow>
             Some \<lparr>ImportedTrack.title = js_or (fld t ''name'') (JStr []),
                   ImportedTrack.artist =
                     js_or (opt_prop (opt_idx0 (fld t ''artists'')) ''name'') (JStr []),
                   ImportedTrack.album = js_or (opt_prop (fld t ''album'') ''name'') (JStr []),
                   ImportedTrack.duration = seconds\<rparr>))"

text \<open>The third block has an inner \<open>try\<close> around JSON.parse and the mapping.\<close>

definition embed_attempt :: "env \<Rightarrow> response \<Rightarrow> playlist_data option" where
  "embed_attempt e response =
     (if ok response then
        (case text_body response of
           None \<Rightarrow> None
         | Some html \<Rightarrow>
             (case embed_script_match html of
                None \<Rightarrow> None
              | Some script \<Rightarrow>
                  (case JSON_parse e script of
                     None \<Rightarrow> None
                   | Some data \<Rightarrow>
                       if nullish data then None
                       else if truthy (opt_prop (fld data ''playlist'') ''tracks'') then
                         (case js_map (embed_track e) (fld (fld data ''playlist'') ''tracks'') of
                            None \<Rightarrow> None
                          | Some mapped \<Rightarrow>
                              Some \<lparr>name = js_or (fld (fld data ''playlist'') ''name'')
                                             (JStr (lit ''Spotify Playlist'')),
                                    playlist_data.tracks = filter has_title_and_artist mapped\<rparr>)
                       else None)))
      else None)"

definition spotifydown_request :: "jsstring \<Rightarrow> request" where
  "spotifydown_request playlistId =
     \<lparr>target = lit ''https://api.spotifydown.com/metadata/playlist/'' @ playlistId,
      headers = [(''Origin'', ''https://spotifydown.com''),
                 (''Referer'', ''https://spotifydown.com/'')]\<rparr>"

definition scraper_request :: "jsstring \<Rightarrow> request" where
  "scraper_request playlistId =
     \<lparr>target = lit ''https://spotify-scraper.p.rapidapi.com/v1/playlist/tracks?playlistId='' @
                playlistId,
      headers = [(''X-RapidAPI-Key'', ''demo''),
                 (''X-RapidAPI-Host'', ''spotify-scraper.p.rapidapi.com'')]\<rparr>"

definition embed_request :: "jsstring \<Rightarrow> request" where
  "embed_request playlistId =
     \<lparr>target = lit ''https://open.spotify.com/embed/playlist/'' @ playlistId,
      headers = [(''User-Agent'', ''Mozilla/5.0'')]\<rparr>"

definition fetchSpotifyPlaylist ::
  "env \<Rightarrow> jsstring \<Rightarrow> event list \<Rightarrow> playlist_data option \<times> event list" where
  "fetchSpotifyPlaylist e playlistId tr =
     (let tr1 = tr @ [Fetch (spotifydown_request playlistId)]
      in case (case fetch e tr (spotifydown_request playlistId) of
                 None \<Rightarrow> None
               | Some metaResponse \<Rightarrow> spotifydown_attempt metaResponse) of
           Some result \<Rightarrow> (Some result, tr1)
         | None \<Rightarrow>
             (let tr2 = tr1 @ [Fetch (scraper_request playlistId)]
              in case (case fetch e tr1 (scraper_request playlistId) of
                         None \<Rightarrow> None
                       | Some response \<Rightarrow> scraper_attempt e response) of
                   Some result \<Rightarrow> (Some result, tr2)
                 | None \<Rightarrow>
                     (let tr3 = tr2 @ [Fetch (embed_request playlistId)]
                      in case (case fetch e tr2 (embed_request playlistId) of
                                 None \<Rightarrow> None
                               | Some response \<Rightarrow> embed_attempt e response) of
                           Some result \<Rightarrow> (Some result, tr3)
                         | None \<Rightarrow> (None, tr3))))"

subsection \<open>Apple Music\<close>

definition apple_track :: "env \<Rightarrow> jsval \<Rightarrow> ImportedTrack option" where
  "apple_track e t =
     (if nullish t then None
      else
        (case (if truthy (opt_prop (fld t ''attributes'') ''durationInMillis'')
               then Math_floor_div_1000 e (fld (fld t ''attributes'') ''durationInMillis'')
               else Some JUndefined) of
           None \<Rightarrow> None
         | Some seconds \<Rightarrow>
             Some \<lparr>ImportedTrack.title = opt_prop (fld t ''attributes'') ''name'',
                   ImportedTrack.artist = opt_prop (fld t ''attributes'') ''artistName'',
                   ImportedTrack.album = opt_prop (fld t ''attributes'') ''albumName'',
                   ImportedTrack.duration = seconds\<rparr>))"

text \<open>\<open>playlist.relationships?.tracks?.data || []\<close>\<close>

definition apple_track_data :: "jsval \<Rightarrow> jsval" where
  "apple_track_data playlist' =
     js_or (opt_prop (opt_prop (fld playlist' ''relationships'') ''tracks'') ''data'') (JArr [])"

definition apple_attempt :: "env \<Rightarrow> response \<Rightarrow> playlist_data option" where
  "apple_attempt e response =
     (if \<not> ok response then None
      else
        (case json_body response of
           None \<Rightarrow> None
         | Some data \<Rightarrow>
             if nullish data then None
             else
               (let playlist' = opt_idx0 (fld data ''data'')
                in if \<not> truthy playlist' then None
                   else
                     (case js_map (apple_track e) (apple_track_data playlist') of
                        None \<Rightarrow> None
                      | Some mapped \<Rightarrow>
                          Some \<lparr>name = js_or (opt_prop (fld playlist' ''attributes'') ''name'')
                                         (JStr (lit ''Apple Music Playlist'')),
                                playlist_data.tracks = mapped\<rparr>))))"

definition apple_request :: "jsstring \<Rightarrow> jsstring \<Rightarrow> request" where
  "apple_request storefront' playlistId =
     \<lparr>target = lit ''https://music.apple.com/api/v1/catalog/'' @ storefront' @
                lit ''/playlists/'' @ playlistId,
      headers = [(''User-Agent'', ''Mozilla/5.0''), (''Origin'', ''https://music.apple.com'')]\<rparr>"

definition fetchAppleMusicPlaylist ::
  "env \<Rightarrow> jsstring \<Rightarrow> jsstring \<Rightarrow> event list \<Rightarrow> playlist_data option \<times> event list" where
  "fetchAppleMusicPlaylist e storefront' playlistId tr =
     (case fetch e tr (apple_request storefront' playlistId) of
        None \<Rightarrow> None
      | Some response \<Rightarrow> apple_attempt e response,
      tr @ [Fetch (apple_request storefront' playlistId)])"

subsection \<open>YouTube Music\<close>

definition INVIDIOUS_INSTANCES :: "string list" where
  "INVIDIOUS_INSTANCES =
     [''https://invidious.io.lol'', ''https://inv.nadeko.net'', ''https://invidious.nerdvpn.de'']"

definition youtube_track :: "jsval \<Rightarrow> ImportedTrack option" where
  "youtube_track v =
     (if nullish v then None
      else Some \<lparr>ImportedTrack.title = fld v ''title'',
                 ImportedTrack.artist =
                   js_or (js_or (fld v ''author'') (fld v ''authorId''))
                     (JStr (lit ''Unknown Artist'')),
                 ImportedTrack.album = JUndefined,
                 ImportedTrack.duration = fld v ''lengthSeconds''\<rparr>)"

text \<open>\<open>data.videos || []\<close>\<close>

definition youtube_video_data :: "jsval \<Rightarrow> jsval" where
  "youtube_video_data data = js_or (fld data ''videos'') (JArr [])"

definition youtube_attempt :: "response \<Rightarrow> playlist_data option" where
  "youtube_attempt response =
     (if \<not> ok response then None
      else
        (case json_body response of
           None \<Rightarrow> None
         | Some data \<Rightarrow>
             if nullish data then None
             else
               (case js_map youtube_track (youtube_video_data data) of
                  None \<Rightarrow> None
                | Some mapped \<Rightarrow>
                    Some \<lparr>name = js_or (fld data ''title'') (JStr (lit ''YouTube Music Playlist'')),
                          playlist_data.tracks = mapped\<rparr>)))"

definition invidious_request :: "string \<Rightarrow> jsstring \<Rightarrow> request" where
  "invidious_request instance playlistId =
     \<lparr>target = lit instance @ lit ''/api/v1/playlists/'' @ playlistId,
      headers = [(''User-Agent'', ''Mozilla/5.0'')]\<rparr>"

text \<open>The \<open>for (const instance of INVIDIOUS_INSTANCES)\<close> loop, over the instances left.\<close>

fun try_instances ::
  "env \<Rightarrow> jsstring \<Rightarrow> string list \<Rightarrow> event list \<Rightarrow> playlist_data option \<times> event list" where
  "try_instances e playlistId [] tr = (None, tr)"
| "try_instances e playlistId (instance # rest) tr =
     (case (case fetch e tr (invidious_request instance playlistId) of
              None \<Rightarrow> None
            | Some response \<Rightarrow> youtube_attempt response) of
        Some result \<Rightarrow> (Some result, tr @ [Fetch (invidious_request instance playlistId)])
      | None \<Rightarrow>
          try_instances e playlistId rest (tr @ [Fetch (invidious_request instance playlistId)]))"

definition fetchYouTubeMusicPlaylist ::
  "env \<Rightarrow> jsstring \<Rightarrow> event list \<Rightarrow> playlist_data option \<times> event list" where
  "fetchYouTubeMusicPlaylist e playlistId tr = try_instances e playlistId INVIDIOUS_INSTANCES tr"

section \<open>Track matcher\<close>

text \<open>What a promise of the service is rejected with.\<close>

datatype failure = TypeError | StorageRejected

text \<open>\<open>results?.tracks?.length\<close> is truthy, and then \<open>results.tracks[0]\<close>.\<close>

definition first_match :: "search_reply \<Rightarrow> MusicTrack option" where
  "first_match r = (case r of Results (Some (m # ms)) \<Rightarrow> Some m | _ \<Rightarrow> None)"

text \<open>
  The object literal \<open>matchTrack\<close> returns. It is written out twice in the source and
  differs in \<open>source\<close> and \<open>matchConfidence\<close> only.
\<close>

definition matched_track ::
  "string \<Rightarrow> nat \<Rightarrow> MusicTrack \<Rightarrow> ImportedTrack \<Rightarrow> int \<Rightarrow> PlaylistTrack" where
  "matched_track src confidence m track t =
     \<lparr>PlaylistTrack.id' = MusicTrack.id' m,
      source = lit src,
      PlaylistTrack.title = MusicTrack.title m,
      PlaylistTrack.artist = MusicTrack.artist m,
      PlaylistTrack.artistId = MusicTrack.artistId m,
      PlaylistTrack.album = MusicTrack.album m,
      PlaylistTrack.albumId = MusicTrack.albumId m,
      PlaylistTrack.duration = MusicTrack.duration m,
      PlaylistTrack.coverArt = MusicTrack.coverArt m,
      addedAt = t,
      originalTitle = ImportedTrack.title track,
      originalArtist = ImportedTrack.artist track,
      matchConfidence = confidence\<rparr>"

text \<open>
  The template literal of the query stands before the first \<open>try\<close>: when the title or
  the artist has no string, \<open>matchTrack\<close> is rejected and no backend is asked.
\<close>

definition matchTrack ::
  "env \<Rightarrow> ImportedTrack \<Rightarrow> event list \<Rightarrow> (failure + PlaylistTrack option) \<times> event list" where
  "matchTrack e track tr =
     (case to_string e (ImportedTrack.title track) of
        None \<Rightarrow> (Inl TypeError, tr)
      | Some t \<Rightarrow>
          (case to_string e (ImportedTrack.artist track) of
             None \<Rightarrow> (Inl TypeError, tr)
           | Some a \<Rightarrow>
               (let query = t @ lit '' '' @ a;
                    tr1 = tr @ [SearchQobuz query]
                in case first_match (searchQobuzOnly e tr query) of
                     Some m \<Rightarrow> (Inr (Some (matched_track ''qobuz'' 90 m track (now e tr1))), tr1)
                   | None \<Rightarrow>
                       (let tr2 = tr1 @ [SearchTidal query]
                        in case first_match (searchTidalOnly e tr1 query) of
                             Some m \<Rightarrow>
                               (Inr (Some (matched_track ''tidal'' 85 m track (now e tr2))), tr2)
                           | None \<Rightarrow> (Inr None, tr2)))))"

section \<open>Import orchestrator\<close>

definition platform_tag :: "ImportPlatform \<Rightarrow> jsstring" where
  "platform_tag p =
     (case p of Spotify \<Rightarrow> lit ''spotify'' | Apple \<Rightarrow> lit ''apple''
      | YouTube \<Rightarrow> lit ''youtube'' | Unknown \<Rightarrow> lit ''unknown'')"

text \<open>The result literal of the early returns: no tracks, no matches, a message.\<close>

definition early_failure :: "string \<Rightarrow> ImportResult" where
  "early_failure msg =
     \<lparr>success = False, playlist = None, totalTracks = 0, matchedTracks = 0,
      unmatchedTracks = [], error = Some (lit msg)\<rparr>"

text \<open>
  The \<open>switch (platform)\<close>: an early return (\<open>Inl\<close>), or \<open>originalId\<close> and
  \<open>playlistData\<close> (\<open>Inr\<close>).
\<close>

definition fetch_for_platform ::
  "env \<Rightarrow> ImportPlatform \<Rightarrow> jsstring \<Rightarrow> event list \<Rightarrow>
   (ImportResult + jsstring \<times> playlist_data option) \<times> event list" where
  "fetch_for_platform e p url tr =
     (case p of
        Spotify \<Rightarrow>
          (case parseSpotifyUrl url of
             None \<Rightarrow> (Inl (early_failure ''Invalid Spotify playlist URL''), tr)
           | Some i \<Rightarrow>
               if i = [] then (Inl (early_failure ''Invalid Spotify playlist URL''), tr)
               else (case fetchSpotifyPlaylist e i tr of
                       (playlistData, tr') \<Rightarrow> (Inr (i, playlistData), tr')))
      | Apple \<Rightarrow>
          (case parseAppleMusicUrl url of
             None \<Rightarrow> (Inl (early_failure ''Invalid Apple Music playlist URL''), tr)
           | Some parsed \<Rightarrow>
               (case fetchAppleMusicPlaylist e (storefront parsed) (apple_ref.id' parsed) tr of
                  (playlistData, tr') \<Rightarrow> (Inr (apple_ref.id' parsed, playlistData), tr')))
      | YouTube \<Rightarrow>
          (case parseYouTubeMusicUrl url of
             None \<Rightarrow> (Inl (early_failure ''Invalid YouTube Music playlist URL''), tr)
           | Some i \<Rightarrow>
               if i = [] then (Inl (early_failure ''Invalid YouTube Music playlist URL''), tr)
               else (case fetchYouTubeMusicPlaylist e i tr of
                       (playlistData, tr') \<Rightarrow> (Inr (i, playlistData), tr')))
      | Unknown \<Rightarrow> (Inr ([], None), tr))"

text \<open>
  The progress call that opens an iteration of the matching loop. Without a callback
  the argument of \<open>onProgress?.(...)\<close> is not evaluated; with one, its template
  literal converts the title and may raise.
\<close>

definition announce_track ::
  "env \<Rightarrow> bool \<Rightarrow> ImportedTrack \<Rightarrow> nat \<Rightarrow> nat \<Rightarrow> event list \<Rightarrow> failure + event list" where
  "announce_track e onProgress track i n tr =
     (if onProgress then
        (case to_string e (ImportedTrack.title track) of
           None \<Rightarrow> Inl TypeError
         | Some t \<Rightarrow>
             Inr (tr @ [Progress \<lparr>stage = Matching, current = i + 1, total = n,
                                  message = lit ''Matching: '' @ t\<rparr>]))
      else Inr tr)"

text \<open>
  The matching loop \<open>for (let i = 0; i < playlistData.tracks.length; i++)\<close> from
  index \<open>i\<close> on, with the two lists it appends to. A raise in the body ends the loop
  and the import.
\<close>

function match_loop ::
  "env \<Rightarrow> bool \<Rightarrow> ImportedTrack list \<Rightarrow> nat \<Rightarrow> nat \<Rightarrow> PlaylistTrack list \<Rightarrow>
   ImportedTrack list \<Rightarrow> event list \<Rightarrow>
   (failure + PlaylistTrack list \<times> ImportedTrack list) \<times> event list" where
  "match_loop e onProgress ts n i ms us tr =
     (if i < length ts then
        (case announce_track e onProgress (ts ! i) i n tr of
           Inl f \<Rightarrow> (Inl f, tr)
         | Inr tr1 \<Rightarrow>
             (case matchTrack e (ts ! i) tr1 of
                (Inl f, tr2) \<Rightarrow> (Inl f, tr2)
              | (Inr matched, tr2) \<Rightarrow>
                  match_loop e onProgress ts n (i + 1)
                    (case matched of Some m \<Rightarrow> ms @ [m] | None \<Rightarrow> ms)
                    (case matched of Some m \<Rightarrow> us | None \<Rightarrow> us @ [ts ! i])
                    (if i < length ts - 1 then tr2 @ [Sleep 200] else tr2)))
      else (Inr (ms, us), tr))"
  by pat_completeness auto
termination
  by (relation "measure (\<lambda>(e, onProgress, ts, n, i, ms, us, tr). length ts - i)") auto

text \<open>
  \<open>total\<close> is the length of an array, which is below \<open>2^32\<close>, so its numeral in the
  message is \<open>digits\<close>.
\<close>

definition importPlaylist ::
  "env \<Rightarrow> bool \<Rightarrow> jsstring \<Rightarrow> event list \<Rightarrow> (failure + ImportResult) \<times> event list" where
  "importPlaylist e onProgress url tr =
     (let p = detectPlatform e url
      in if p = Unknown then
           (Inr (early_failure
              ''Unsupported URL. Please use a Spotify, Apple Music, or YouTube Music playlist link.''),
            tr)
         else
           (case fetch_for_platform e p url
                   (emit onProgress
                      \<lparr>stage = Fetching, current = 0, total = 0,
                       message = lit ''Fetching playlist from '' @ platform_tag p @ lit ''...''\<rparr>
                      tr) of
              (Inl early, tr2) \<Rightarrow> (Inr early, tr2)
            | (Inr (oid, None), tr2) \<Rightarrow>
                (Inr (early_failure
                   ''Could not fetch playlist. Make sure it's a public playlist.''),
                 tr2)
            | (Inr (oid, Some playlistData), tr2) \<Rightarrow>
                if length (playlist_data.tracks playlistData) = 0 then
                  (Inr (early_failure
                     ''Could not fetch playlist. Make sure it's a public playlist.''),
                   tr2)
                else
                  (let n = length (playlist_data.tracks playlistData)
                   in case match_loop e onProgress (playlist_data.tracks playlistData) n 0 [] []
                             (emit onProgress
                                \<lparr>stage = Matching, current = 0, total = n,
                                 message = lit ''Matching '' @ digits n @ lit '' tracks...''\<rparr>
                                tr2) of
                        (Inl f, tr4) \<Rightarrow> (Inl f, tr4)
                      | (Inr (matched, unmatched), tr4) \<Rightarrow>
                          if length matched = 0 then
                            (Inr \<lparr>success = False, playlist = None, totalTracks = n,
                                  matchedTracks = 0, unmatchedTracks = unmatched,
                                  error = Some (lit ''Could not match any tracks. Try a different playlist.'')\<rparr>,
                             tr4)
                          else
                            (let tr5 = emit onProgress
                                         \<lparr>stage = Saving, current = 0, total = 0,
                                          message = lit ''Saving playlist...''\<rparr> tr4;
                                 tr6 = tr5 @ [CreatePlaylist (name playlistData)]
                             in case createPlaylist e tr5 (name playlistData) of
                                  None \<Rightarrow> (Inl StorageRejected, tr6)
                                | Some newPlaylist \<Rightarrow>
                                    (let updatedPlaylist =
                                           newPlaylist
                                             \<lparr>UserPlaylist.tracks := matched,
                                              UserPlaylist.coverArt :=
                                                js_or (case matched of
                                                         [] \<Rightarrow> JUndefined
                                                       | m # ms \<Rightarrow> PlaylistTrack.coverArt m)
                                                  JUndefined,
                                              importSource :=
                                                Some \<lparr>platform = p, originalId = oid,
                                                      originalName = name playlistData\<rparr>\<rparr>;
                                         tr7 = tr6 @ [UpdatePlaylist updatedPlaylist]
                                     in if updatePlaylist e tr6 updatedPlaylist then
                                          (Inr \<lparr>success = True, playlist = Some updatedPlaylist,
                                                totalTracks = n, matchedTracks = length matched,
                                                unmatchedTracks = unmatched, error = None\<rparr>,
                                           emit onProgress
                                             \<lparr>stage = Done, current = length matched, total = n,
                                              message = lit ''Import complete!''\<rparr> tr7)
                                        else (Inl StorageRejected, tr7))))))"

section \<open>Reading a trace\<close>

fun progress_of :: "event \<Rightarrow> ImportProgress list" where
  "progress_of (Progress p) = [p]"
| "progress_of ev = []"

text \<open>The progress events of a trace, in the order of their emission.\<close>

definition progress_events :: "event list \<Rightarrow> ImportProgress list" where
  "progress_events tr = concat (map progress_of tr)"

definition matching_events :: "event list \<Rightarrow> ImportProgress list" where
  "matching_events tr = filter (\<lambda>q. stage q = Matching) (progress_events tr)"

definition saving_events :: "event list \<Rightarrow> ImportProgress list" where
  "saving_events tr = filter (\<lambda>q. stage q = Saving) (progress_events tr)"

fun is_storage :: "event \<Rightarrow> bool" where
  "is_storage (CreatePlaylist n) = True"
| "is_storage (UpdatePlaylist p) = True"
| "is_storage ev = False"

text \<open>The calls to the persistence collaborator.\<close>

definition storage_events :: "event list \<Rightarrow> event list" where
  "storage_events tr = filter is_storage tr"

text \<open>The three kinds of progress event \<open>importPlaylist\<close> emits up to the matching loop.\<close>

definition fetching_announcement :: "ImportPlatform \<Rightarrow> ImportProgress" where
  "fetching_announcement p =
     \<lparr>stage = Fetching, current = 0, total = 0,
      message = lit ''Fetching playlist from '' @ platform_tag p @ lit ''...''\<rparr>"

definition matching_announcement :: "nat \<Rightarrow> ImportProgress" where
  "matching_announcement n =
     \<lparr>stage = Matching, current = 0, total = n,
      message = lit ''Matching '' @ digits n @ lit '' tracks...''\<rparr>"

definition title_text :: "env \<Rightarrow> ImportedTrack \<Rightarrow> jsstring" where
  "title_text e track =
     (case to_string e (ImportedTrack.title track) of Some t \<Rightarrow> t | None \<Rightarrow> [])"

definition matching_progress ::
  "env \<Rightarrow> ImportedTrack list \<Rightarrow> nat \<Rightarrow> nat \<Rightarrow> ImportProgress" where
  "matching_progress e ts n k =
     \<lparr>stage = Matching, current = k + 1, total = n,
      message = lit ''Matching: '' @ title_text e (ts ! k)\<rparr>"

section \<open>The words of the specification\<close>

text \<open>
  Two code units that are the same letter up to case: equal, or a capital A-Z and its
  small letter, or the Kelvin sign U+212A and \<open>k\<close>, the one letter beyond ASCII whose
  small form is an ASCII letter.
\<close>

definition same_letter :: "nat \<Rightarrow> nat \<Rightarrow> bool" where
  "same_letter c x = (c = x \<or> (65 \<le> c \<and> c \<le> 90 \<and> x = c + 32) \<or> (c = 8490 \<and> x = 107))"

text \<open>A URL mentions a domain when some substring of it is the domain up to case.\<close>

definition mentions :: "jsstring \<Rightarrow> string \<Rightarrow> bool" where
  "mentions url d =
     (\<exists>pre mid post. url = pre @ mid @ post \<and> list_all2 same_letter mid (lit d))"

text \<open>
  What the Unicode tables say of \<open>toLowerCase\<close>, as far as ASCII is concerned. The
  result is made of one piece for each code unit: the small letter for A-Z, the unit
  itself for the rest of ASCII, \<open>k\<close> for the Kelvin sign, \<open>i\<close> and the combining dot
  U+0307 for the dotted capital I U+0130, and for every other unit a piece that is not
  empty and has no ASCII unit in it (the piece may depend on the neighbours, as for the
  final sigma).
\<close>

definition lower_image :: "nat \<Rightarrow> jsstring \<Rightarrow> bool" where
  "lower_image c b =
     (if c < 128 then b = [ascii_lower c]
      else if c = 8490 then b = [107]
      else if c = 304 then b = [105, 775]
      else b \<noteq> [] \<and> list_all (\<lambda>x. 128 \<le> x) b)"

inductive lowered :: "jsstring \<Rightarrow> jsstring \<Rightarrow> bool" where
  lowered_Nil: "lowered [] []"
| lowered_Cons: "lower_image c b \<Longrightarrow> lowered s t \<Longrightarrow> lowered (c # s) (b @ t)"

definition unicode_lowercase :: "(jsstring \<Rightarrow> jsstring) \<Rightarrow> bool" where
  "unicode_lowercase f = (\<forall>s. lowered s (f s))"

text \<open>
  A search text of small ASCII letters and signs that does not end in \<open>i\<close>, as each
  of the six domains is.
\<close>

definition plain_needle :: "jsstring \<Rightarrow> bool" where
  "plain_needle d =
     (d \<noteq> [] \<and> list_all (\<lambda>x. x < 128 \<and> \<not> is_upper x) d \<and> last d \<noteq> 105)"

text \<open>A catalog backend that returns nothing, or raises.\<close>

definition no_results :: "search_reply \<Rightarrow> bool" where
  "no_results r = (r = Rejected \<or> r = Nullish \<or> r = Results None \<or> r = Results (Some []))"

text \<open>A matched track that carries the fields of a catalog track and of its source track.\<close>

definition copies_result :: "PlaylistTrack \<Rightarrow> MusicTrack \<Rightarrow> ImportedTrack \<Rightarrow> bool" where
  "copies_result x m track =
     (PlaylistTrack.id' x = MusicTrack.id' m \<and>
      PlaylistTrack.title x = MusicTrack.title m \<and>
      PlaylistTrack.artist x = MusicTrack.artist m \<and>
      PlaylistTrack.artistId x = MusicTrack.artistId m \<and>
      PlaylistTrack.album x = MusicTrack.album m \<and>
      PlaylistTrack.albumId x = MusicTrack.albumId m \<and>
      PlaylistTrack.duration x = MusicTrack.duration m \<and>
      PlaylistTrack.coverArt x = MusicTrack.coverArt m \<and>
      originalTitle x = ImportedTrack.title track \<and>
      originalArtist x = ImportedTrack.artist track)"

text \<open>
  A track whose title and artist have a string, as every track of the declared type
  \<open>ImportedTrack\<close> has.
\<close>

definition has_text :: "env \<Rightarrow> ImportedTrack \<Rightarrow> bool" where
  "has_text e track =
     (to_string e (ImportedTrack.title track) \<noteq> None \<and>
      to_string e (ImportedTrack.artist track) \<noteq> None)"

section \<open>Example runs\<close>

definition catalog_track :: "string \<Rightarrow> jsval \<Rightarrow> MusicTrack" where
  "catalog_track t cover =
     \<lparr>MusicTrack.id' = JNum (Finite 7), MusicTrack.title = JStr (lit t),
      MusicTrack.artist = JStr (lit ''B''), MusicTrack.artistId = JNum (Finite 1),
      MusicTrack.album = JStr (lit ''LP''), MusicTrack.albumId = JNum (Finite 2),
      MusicTrack.duration = JNum (Finite 100), MusicTrack.coverArt = cover\<rparr>"

definition source_track :: "string \<Rightarrow> string \<Rightarrow> ImportedTrack" where
  "source_track t a =
     \<lparr>ImportedTrack.title = JStr (lit t), ImportedTrack.artist = JStr (lit a),
      ImportedTrack.album = JStr [], ImportedTrack.duration = JNum (Finite 0)\<rparr>"

text \<open>Three tracks, the second without an artist.\<close>

definition spotifydown_payload :: jsval where
  "spotifydown_payload =
     JObj [(lit ''success'', JBool True), (lit ''title'', JStr (lit ''Mix'')),
           (lit ''trackList'',
            JArr [JObj [(lit ''title'', JStr (lit ''A'')), (lit ''artists'', JStr (lit ''B''))],
                  JObj [(lit ''title'', JStr (lit ''C''))],
                  JObj [(lit ''name'', JStr (lit ''D'')), (lit ''artist'', JStr (lit ''E''))]])]"

text \<open>Two tracks, the second without attributes.\<close>

definition apple_payload :: jsval where
  "apple_payload =
     JObj [(lit ''data'',
            JArr [JObj [(lit ''attributes'', JObj [(lit ''name'', JStr (lit ''Mix''))]),
                        (lit ''relationships'',
                         JObj [(lit ''tracks'',
                                JObj [(lit ''data'',
                                       JArr [JObj [(lit ''attributes'',
                                                    JObj [(lit ''name'', JStr (lit ''A'')),
                                                          (lit ''artistName'', JStr (lit ''B''))])],
                                             JObj []])])])]])]"

text \<open>Two videos, the second without title and author.\<close>

definition youtube_payload :: jsval where
  "youtube_payload =
     JObj [(lit ''title'', JStr (lit ''Mix'')),
           (lit ''videos'',
            JArr [JObj [(lit ''title'', JStr (lit ''A'')), (lit ''author'', JStr (lit ''B''))],
                  JObj [(lit ''lengthSeconds'', JNum (Finite 10))]])]"

text \<open>
  A runtime for the examples. Its \<open>toLowerCase\<close> has the tables of ASCII and
  Latin-1, the Kelvin sign and the dotted capital I, and keeps every other code unit.
\<close>

definition demo_lower :: "jsstring \<Rightarrow> jsstring" where
  "demo_lower s =
     concat (map (\<lambda>c. if c < 128 then [ascii_lower c]
                       else if c = 8490 then [107]
                       else if c = 304 then [105, 775]
                       else if (192 \<le> c \<and> c \<le> 214) \<or> (216 \<le> c \<and> c \<le> 222) then [c + 32]
                       else [c]) s)"

text \<open>
  Its \<open>Math.floor(x / 1000)\<close> is exact on \<open>undefined\<close>, \<open>null\<close>, the booleans
  and the integers below \<open>2^53\<close>. An object converts as in a template literal and
  is no number. A string or an array is taken for no number as well, which is right
  unless it reads as a numeral. The examples divide the number 0 only.
\<close>

definition demo_floor :: "jsval \<Rightarrow> jsval option" where
  "demo_floor v =
     (case v of
        JNum (Finite r) \<Rightarrow> Some (JNum (Finite (of_int \<lfloor>r / 1000\<rfloor>)))
      | JNum x \<Rightarrow> Some (JNum x)
      | JNull \<Rightarrow> Some (JNum (Finite 0))
      | JBool b \<Rightarrow> Some (JNum (Finite 0))
      | JObj kvs \<Rightarrow>
          (case own_property kvs ''toString'' of None \<Rightarrow> Some (JNum NaN) | Some f \<Rightarrow> None)
      | _ \<Rightarrow> Some (JNum NaN))"

text \<open>
  One endpoint per platform answers; the first catalog knows \<open>A B\<close>, the second
  \<open>D E\<close>; the store accepts everything. No example reaches \<open>JSON.parse\<close> or
  prints a number that is no small integer.
\<close>

definition demo_env :: env where
  "demo_env =
     \<lparr>fetch = (\<lambda>h r.
        if target r = lit ''https://api.spotifydown.com/metadata/playlist/abc''
          then Some \<lparr>ok = True, json_body = Some spotifydown_payload, text_body = None\<rparr>
        else if target r = lit ''https://music.apple.com/api/v1/catalog/us/playlists/pl.abc''
          then Some \<lparr>ok = True, json_body = Some apple_payload, text_body = None\<rparr>
        else if target r = lit ''https://inv.nadeko.net/api/v1/playlists/PLabc''
          then Some \<lparr>ok = True, json_body = Some youtube_payload, text_body = None\<rparr>
        else None),
      searchQobuzOnly = (\<lambda>h q.
        if q = lit ''A B''
          then Results (Some [catalog_track ''A'' (JStr (lit ''cover.jpg'')),
                              catalog_track ''A2'' JNull])
        else Rejected),
      searchTidalOnly = (\<lambda>h q.
        if q = lit ''D E'' then Results (Some [catalog_track ''D'' JUndefined])
        else Results (Some [])),
      now = (\<lambda>h. int (length h)),
      createPlaylist = (\<lambda>h n.
        Some \<lparr>stored = n, UserPlaylist.tracks = [], UserPlaylist.coverArt = JNull,
              importSource = None\<rparr>),
      updatePlaylist = (\<lambda>h pl. True),
      JSON_parse = (\<lambda>s. None),
      Math_floor_div_1000 = demo_floor,
      number_beyond = (\<lambda>x. lit ''1e+21''),
      lower_beyond = demo_lower\<rparr>"

text \<open>The same world with both catalogs down.\<close>

definition deaf_env :: env where
  "deaf_env = demo_env\<lparr>searchQobuzOnly := (\<lambda>h q. Rejected), searchTidalOnly := (\<lambda>h q. Nullish)\<rparr>"

text \<open>The same world with the first catalog down: only \<open>D E\<close> is found, without cover art.\<close>

definition tidal_only_env :: env where
  "tidal_only_env = demo_env\<lparr>searchQobuzOnly := (\<lambda>h q. Rejected)\<rparr>"

text \<open>
  The first Spotify endpoint has renamed its title field, so every track it lists maps
  to an empty title; the second endpoint still serves the playlist.
\<close>

definition stale_env :: env where
  "stale_env =
     demo_env\<lparr>fetch := (\<lambda>h r.
        if target r = lit ''https://api.spotifydown.com/metadata/playlist/abc''
          then Some \<lparr>ok = True,
                      json_body =
                        Some (JObj [(lit ''success'', JBool True),
                                    (lit ''trackList'',
                                     JArr [JObj [(lit ''track_name'', JStr (lit ''A'')),
                                                 (lit ''artists'', JStr (lit ''B''))]])]),
                      text_body = None\<rparr>
        else if target r =
                lit ''https://spotify-scraper.p.rapidapi.com/v1/playlist/tracks?playlistId=abc''
          then Some \<lparr>ok = True,
                      json_body =
                        Some (JObj [(lit ''name'', JStr (lit ''Mix'')),
                                    (lit ''tracks'',
                                     JObj [(lit ''items'',
                                            JArr [JObj [(lit ''name'', JStr (lit ''A'')),
                                                        (lit ''artists'',
                                                         JArr [JObj [(lit ''name'',
                                                                      JStr (lit ''B''))]])]])])]),
                      text_body = None\<rparr>
        else None)\<rparr>"

text \<open>
  The first Spotify endpoint lists a second track whose title is an object with a
  property \<open>toString\<close>: truthy, so the filter keeps it, and without a string.
\<close>

definition odd_track :: ImportedTrack where
  "odd_track =
     \<lparr>ImportedTrack.title = JObj [(lit ''toString'', JNum (Finite 1))],
      ImportedTrack.artist = JStr (lit ''B''),
      ImportedTrack.album = JStr [], ImportedTrack.duration = JNum (Finite 0)\<rparr>"

definition odd_env :: env where
  "odd_env =
     demo_env\<lparr>fetch := (\<lambda>h r.
        if target r = lit ''https://api.spotifydown.com/metadata/playlist/abc''
          then Some \<lparr>ok = True,
                      json_body =
                        Some (JObj [(lit ''success'', JBool True),
                                    (lit ''trackList'',
                                     JArr [JObj [(lit ''title'', JStr (lit ''A'')),
                                                 (lit ''artists'', JStr (lit ''B''))],
                                           JObj [(lit ''title'',
                                                  JObj [(lit ''toString'', JNum (Finite 1))]),
                                                 (lit ''artists'', JStr (lit ''B''))]])]),
                      text_body = None\<rparr>
        else None)\<rparr>"

definition spotify_url :: jsstring where
  "spotify_url = lit ''https://open.spotify.com/playlist/abc''"

definition shouting_url :: jsstring where
  "shouting_url = lit ''HTTPS://OPEN.SPOTIFY.COM/playlist/abc''"


definition spotify_playlist :: playlist_data where
  "spotify_playlist =
     \<lparr>name = JStr (lit ''Mix''),
      playlist_data.tracks = [source_track ''A'' ''B'', source_track ''D'' ''E'']\<rparr>"

definition apple_playlist :: playlist_data where
  "apple_playlist =
     \<lparr>name = JStr (lit ''Mix''),
      playlist_data.tracks =
        [\<lparr>ImportedTrack.title = JStr (lit ''A''), ImportedTrack.artist = JStr (lit ''B''),
          ImportedTrack.album = JUndefined, ImportedTrack.duration = JUndefined\<rparr>,
         \<lparr>ImportedTrack.title = JUndefined, ImportedTrack.artist = JUndefined,
          ImportedTrack.album = JUndefined, ImportedTrack.duration = JUndefined\<rparr>]\<rparr>"

definition youtube_playlist :: playlist_data where
  "youtube_playlist =
     \<lparr>name = JStr (lit ''Mix''),
      playlist_data.tracks =
        [\<lparr>ImportedTrack.title = JStr (lit ''A''), ImportedTrack.artist = JStr (lit ''B''),
          ImportedTrack.album = JUndefined, ImportedTrack.duration = JUndefined\<rparr>,
         \<lparr>ImportedTrack.title = JUndefined, ImportedTrack.artist = JStr (lit ''Unknown Artist''),
          ImportedTrack.album = JUndefined, ImportedTrack.duration = JNum (Finite 10)\<rparr>]\<rparr>"

section \<open>Supporting lemmas\<close>

declare match_loop.simps [simp del]
declare digits.simps [simp del]

lemma lit_Nil [simp]: "lit [] = []"
  by (simp add: lit_def)

lemma lit_append [simp]: "lit (a @ b) = lit a @ lit b"
  by (simp add: lit_def)

lemma lit_eq_iff [simp]: "lit a = lit b \<longleftrightarrow> a = b"
  by (simp add: lit_def inj_map_eq_map [OF inj_of_char])

lemma length_lit [simp]: "length (lit s) = length s"
  by (simp add: lit_def)

lemma lit_eq_Nil_iff [simp]: "lit s = [] \<longleftrightarrow> s = []"
  by (simp add: lit_def)

lemma str_includes_iff: "str_includes s sub \<longleftrightarrow> (\<exists>pre post. s = pre @ sub @ post)"
proof (induction s)
  case Nil
  then show ?case by simp
next
  case (Cons c cs)
  show ?case
  proof
    assume "str_includes (c # cs) sub"
    then consider "prefix sub (c # cs)" | "str_includes cs sub" by auto
    then show "\<exists>pre post. c # cs = pre @ sub @ post"
    proof cases
      case 1
      then obtain post where "c # cs = sub @ post" by (auto simp: prefix_def)
      then have "c # cs = [] @ sub @ post" by simp
      then show ?thesis by blast
    next
      case 2
      with Cons.IH obtain pre post where "cs = pre @ sub @ post" by blast
      then have "c # cs = (c # pre) @ sub @ post" by simp
      then show ?thesis by blast
    qed
  next
    assume "\<exists>pre post. c # cs = pre @ sub @ post"
    then obtain pre post where eq: "c # cs = pre @ sub @ post" by blast
    show "str_includes (c # cs) sub"
    proof (cases pre)
      case Nil
      with eq have "prefix sub (c # cs)" by (simp add: prefix_def)
      then show ?thesis by simp
    next
      case (Cons p ps)
      with eq have "cs = ps @ sub @ post" by simp
      with Cons.IH have "str_includes cs sub" by blast
      then show ?thesis by simp
    qed
  qed
qed

text \<open>The small form of an ASCII unit is the given small unit exactly when the two are the same letter.\<close>

lemma ascii_lower_same_letter:
  assumes "c < 128" "x < 128" "\<not> is_upper x"
  shows "x = ascii_lower c \<longleftrightarrow> same_letter c x"
  using assms by (auto simp: ascii_lower_def same_letter_def is_upper_def)

lemma same_letter_beyond:
  assumes "128 \<le> c" "x < 128" "\<not> is_upper x"
  shows "same_letter c x \<longleftrightarrow> c = 8490 \<and> x = 107"
  using assms by (auto simp: same_letter_def is_upper_def)

lemma cons_split:
  "(\<exists>mid post. c # s = mid @ post \<and> list_all2 R mid (x # d)) \<longleftrightarrow>
   R c x \<and> (\<exists>mid post. s = mid @ post \<and> list_all2 R mid d)"
proof
  assume "\<exists>mid post. c # s = mid @ post \<and> list_all2 R mid (x # d)"
  then obtain mid post where m: "c # s = mid @ post" "list_all2 R mid (x # d)" by blast
  from m(2) obtain y mid' where mid: "mid = y # mid'" "R y x" "list_all2 R mid' d"
    by (auto simp: list_all2_Cons2)
  with m(1) have "y = c" "s = mid' @ post" by simp_all
  with mid show "R c x \<and> (\<exists>mid post. s = mid @ post \<and> list_all2 R mid d)" by blast
next
  assume "R c x \<and> (\<exists>mid post. s = mid @ post \<and> list_all2 R mid d)"
  then obtain mid post where "R c x" "s = mid @ post" "list_all2 R mid d" by blast
  then have "c # s = (c # mid) @ post \<and> list_all2 R (c # mid) (x # d)" by simp
  then show "\<exists>mid post. c # s = mid @ post \<and> list_all2 R mid (x # d)" by blast
qed

lemma lowered_prefix:
  assumes "lowered s t"
    and "list_all (\<lambda>x. x < 128 \<and> \<not> is_upper x) d"
    and "d = [] \<or> last d \<noteq> 105"
  shows "prefix d t \<longleftrightarrow> (\<exists>mid post. s = mid @ post \<and> list_all2 same_letter mid d)"
  using assms
proof (induction arbitrary: d rule: lowered.induct)
  case lowered_Nil
  then show ?case by auto
next
  case (lowered_Cons c b s t)
  show ?case
  proof (cases d)
    case Nil
    have "[] @ (c # s) = c # s \<and> list_all2 same_letter [] []" by simp
    then have "\<exists>mid post. c # s = mid @ post \<and> list_all2 same_letter mid []" by metis
    with Nil show ?thesis by simp
  next
    case (Cons x d')
    with lowered_Cons.prems have x: "x < 128" "\<not> is_upper x"
      and d': "list_all (\<lambda>x. x < 128 \<and> \<not> is_upper x) d'"
      and l: "d' = [] \<or> last d' \<noteq> 105"
      and xl: "d' = [] \<longrightarrow> x \<noteq> 105"
      by auto
    note IH = lowered_Cons.IH [OF d' l]
    have rhs: "(\<exists>mid post. c # s = mid @ post \<and> list_all2 same_letter mid (x # d')) \<longleftrightarrow>
               same_letter c x \<and> prefix d' t"
      unfolding cons_split IH ..
    have lhs: "prefix (x # d') (b @ t) \<longleftrightarrow> same_letter c x \<and> prefix d' t"
    proof (cases "c < 128")
      case True
      with lowered_Cons.hyps(1) have "b = [ascii_lower c]" by (simp add: lower_image_def)
      with ascii_lower_same_letter [OF True x] show ?thesis by auto
    next
      case False
      then have c: "128 \<le> c" by simp
      show ?thesis
      proof (cases "c = 8490")
        case True
        with lowered_Cons.hyps(1) have "b = [107]" by (simp add: lower_image_def)
        with same_letter_beyond [OF c x] True show ?thesis by auto
      next
        case k: False
        show ?thesis
        proof (cases "c = 304")
          case True
          with lowered_Cons.hyps(1) have b: "b = [105, 775]" by (simp add: lower_image_def)
          have "\<not> (x = 105 \<and> prefix d' (775 # t))"
          proof
            assume p: "x = 105 \<and> prefix d' (775 # t)"
            show False
            proof (cases d')
              case Nil
              with xl p show False by simp
            next
              case (Cons y d'')
              with p have "y = 775" by simp
              with Cons d' show False by simp
            qed
          qed
          moreover have "\<not> same_letter c x"
            using same_letter_beyond [OF c x] k by simp
          ultimately show ?thesis using b by simp
        next
          case False
          with c k lowered_Cons.hyps(1) obtain y b' where b: "b = y # b'" "128 \<le> y"
            by (cases b) (auto simp: lower_image_def)
          with x same_letter_beyond [OF c x] k show ?thesis by auto
        qed
      qed
    qed
    from lhs rhs Cons show ?thesis by simp
  qed
qed

lemma str_includes_beyond:
  assumes "list_all (\<lambda>x. 128 \<le> x) b" and "d \<noteq> []" and "hd d < 128"
  shows "str_includes (b @ t) d \<longleftrightarrow> str_includes t d"
  using assms
proof (induction b)
  case Nil
  then show ?case by simp
next
  case (Cons y b)
  from Cons.prems have "\<not> prefix d (y # b @ t)"
    by (cases d) auto
  with Cons show ?case by simp
qed

lemma front_split:
  "(\<exists>pre mid post. c # s = pre @ mid @ post \<and> P mid) \<longleftrightarrow>
   (\<exists>mid post. c # s = mid @ post \<and> P mid) \<or> (\<exists>pre mid post. s = pre @ mid @ post \<and> P mid)"
proof
  assume "\<exists>pre mid post. c # s = pre @ mid @ post \<and> P mid"
  then obtain pre mid post where m: "c # s = pre @ mid @ post" "P mid" by blast
  show "(\<exists>mid post. c # s = mid @ post \<and> P mid) \<or> (\<exists>pre mid post. s = pre @ mid @ post \<and> P mid)"
  proof (cases pre)
    case Nil
    with m show ?thesis by auto
  next
    case (Cons p ps)
    with m have "s = ps @ mid @ post" by simp
    with m(2) show ?thesis by blast
  qed
next
  assume "(\<exists>mid post. c # s = mid @ post \<and> P mid) \<or> (\<exists>pre mid post. s = pre @ mid @ post \<and> P mid)"
  then show "\<exists>pre mid post. c # s = pre @ mid @ post \<and> P mid"
  proof
    assume "\<exists>mid post. c # s = mid @ post \<and> P mid"
    then obtain mid post where "c # s = [] @ mid @ post" "P mid" by auto
    then show ?thesis by blast
  next
    assume "\<exists>pre mid post. s = pre @ mid @ post \<and> P mid"
    then obtain pre mid post where "c # s = (c # pre) @ mid @ post" "P mid" by auto
    then show ?thesis by blast
  qed
qed

lemma lowered_includes:
  assumes "lowered s t" and "plain_needle d"
  shows "str_includes t d \<longleftrightarrow>
         (\<exists>pre mid post. s = pre @ mid @ post \<and> list_all2 same_letter mid d)"
  using assms
proof (induction rule: lowered.induct)
  case lowered_Nil
  then show ?case by (auto simp: plain_needle_def)
next
  case (lowered_Cons c b s t)
  from lowered_Cons.prems have d: "d \<noteq> []" "list_all (\<lambda>x. x < 128 \<and> \<not> is_upper x) d"
    "d = [] \<or> last d \<noteq> 105"
    by (simp_all add: plain_needle_def)
  from d have hd: "hd d < 128" by (cases d) simp_all
  have low: "lowered (c # s) (b @ t)"
    using lowered_Cons.hyps by (rule lowered.lowered_Cons)
  have inc: "str_includes (b @ t) d \<longleftrightarrow> prefix d (b @ t) \<or> str_includes t d"
  proof (cases "c < 128 \<or> c = 8490")
    case True
    with lowered_Cons.hyps(1) obtain y where "b = [y]"
      by (auto simp: lower_image_def split: if_splits)
    then show ?thesis by simp
  next
    case False
    show ?thesis
    proof (cases "c = 304")
      case True
      with lowered_Cons.hyps(1) have b: "b = [105, 775]" by (simp add: lower_image_def)
      from d(1) hd have "\<not> prefix d (775 # t)" by (cases d) auto
      with b show ?thesis by simp
    next
      case c: False
      with False lowered_Cons.hyps(1) have b: "b \<noteq> []" "list_all (\<lambda>x. 128 \<le> x) b"
        by (simp_all add: lower_image_def)
      from b d(1) hd have "\<not> prefix d (b @ t)"
        by (cases b; cases d) auto
      with str_includes_beyond [OF b(2) d(1) hd] show ?thesis by simp
    qed
  qed
  show ?case
    unfolding inc front_split lowered_prefix [OF low d(2,3)] lowered_Cons.IH [OF lowered_Cons.prems]
    ..
qed

lemma lowered_ascii: "list_all (\<lambda>c. c < 128) s \<Longrightarrow> lowered s (map ascii_lower s)"
proof (induction s)
  case Nil
  then show ?case by (simp add: lowered_Nil)
next
  case (Cons c s)
  then have "lower_image c [ascii_lower c]" "lowered s (map ascii_lower s)"
    by (simp_all add: lower_image_def)
  then have "lowered (c # s) ([ascii_lower c] @ map ascii_lower s)"
    by (rule lowered_Cons)
  then show ?case by simp
qed

lemma lowered_toLowerCase:
  "unicode_lowercase beyond \<Longrightarrow> lowered s (toLowerCase beyond s)"
  by (simp add: toLowerCase_def lowered_ascii unicode_lowercase_def)

lemma includes_mentions:
  assumes "unicode_lowercase beyond" and "plain_needle (lit d)"
  shows "str_includes (toLowerCase beyond url) (lit d) \<longleftrightarrow> mentions url d"
  unfolding mentions_def
  using lowered_includes [OF lowered_toLowerCase [OF assms(1)] assms(2)] .

lemma domains_plain:
  "plain_needle (lit ''spotify.com'')" "plain_needle (lit ''spotify.link'')"
  "plain_needle (lit ''music.apple.com'')" "plain_needle (lit ''itunes.apple.com'')"
  "plain_needle (lit ''music.youtube.com'')" "plain_needle (lit ''youtube.com/playlist'')"
  by code_simp+

lemma demo_lower_unicode: "unicode_lowercase demo_lower"
proof -
  have "lowered s (demo_lower s)" for s
  proof (induction s)
    case Nil
    then show ?case by (simp add: demo_lower_def lowered_Nil)
  next
    case (Cons c s)
    let ?b = "if c < 128 then [ascii_lower c] else if c = 8490 then [107]
              else if c = 304 then [105, 775]
              else if (192 \<le> c \<and> c \<le> 214) \<or> (216 \<le> c \<and> c \<le> 222) then [c + 32]
              else [c]"
    have "lower_image c ?b" by (simp add: lower_image_def)
    from this Cons have "lowered (c # s) (?b @ demo_lower s)" by (rule lowered_Cons)
    then show ?case by (simp add: demo_lower_def)
  qed
  then show ?thesis by (simp add: unicode_lowercase_def)
qed

lemma progress_events_append [simp]:
  "progress_events (a @ b) = progress_events a @ progress_events b"
  by (simp add: progress_events_def)

lemma storage_events_append [simp]:
  "storage_events (a @ b) = storage_events a @ storage_events b"
  by (simp add: storage_events_def)

lemma progress_events_simps [simp]:
  "progress_events [] = []"
  "progress_events (Progress p # tr) = p # progress_events tr"
  "progress_events (Fetch r # tr) = progress_events tr"
  "progress_events (SearchQobuz q # tr) = progress_events tr"
  "progress_events (SearchTidal q # tr) = progress_events tr"
  "progress_events (Sleep d # tr) = progress_events tr"
  "progress_events (CreatePlaylist nm # tr) = progress_events tr"
  "progress_events (UpdatePlaylist pl # tr) = progress_events tr"
  by (simp_all add: progress_events_def)

lemma storage_events_simps [simp]:
  "storage_events [] = []"
  "storage_events (Progress p # tr) = storage_events tr"
  "storage_events (Fetch r # tr) = storage_events tr"
  "storage_events (SearchQobuz q # tr) = storage_events tr"
  "storage_events (SearchTidal q # tr) = storage_events tr"
  "storage_events (Sleep d # tr) = storage_events tr"
  "storage_events (CreatePlaylist nm # tr) = CreatePlaylist nm # storage_events tr"
  "storage_events (UpdatePlaylist pl # tr) = UpdatePlaylist pl # storage_events tr"
  by (simp_all add: storage_events_def)

lemma emit_append: "emit cb p tr = tr @ (if cb then [Progress p] else [])"
  by (simp add: emit_def)

lemma announcement_fields [simp]:
  "stage (fetching_announcement p) = Fetching"
  "stage (matching_announcement n) = Matching"
  "current (matching_announcement n) = 0"
  "total (matching_announcement n) = n"
  by (simp_all add: fetching_announcement_def matching_announcement_def)

lemma matching_progress_fields [simp]:
  "stage (matching_progress e ts n k) = Matching"
  "current (matching_progress e ts n k) = Suc k"
  "total (matching_progress e ts n k) = n"
  by (simp_all add: matching_progress_def)

lemma upt_0_Suc: "[0..<Suc n] = 0 # map Suc [0..<n]"
  by (simp add: map_Suc_upt upt_conv_Cons del: upt_Suc)

lemma matchTrack_trace:
  "\<exists>evs. snd (matchTrack e track tr) = tr @ evs \<and> progress_events evs = [] \<and> storage_events evs = []"
  by (auto simp: matchTrack_def Let_def split: option.splits)

lemma matchTrack_has_text:
  "has_text e track \<Longrightarrow> \<exists>m. fst (matchTrack e track tr) = Inr m"
  by (auto simp: matchTrack_def has_text_def Let_def split: option.splits)

lemma matchTrack_rejected:
  "fst (matchTrack e track tr) = Inl f \<Longrightarrow>
   f = TypeError \<and> \<not> has_text e track \<and> snd (matchTrack e track tr) = tr"
  by (auto simp: matchTrack_def has_text_def Let_def split: option.splits)

lemma fetchSpotifyPlaylist_trace:
  "\<exists>evs. snd (fetchSpotifyPlaylist e i tr) = tr @ evs \<and> progress_events evs = [] \<and> storage_events evs = []"
  by (auto simp: fetchSpotifyPlaylist_def Let_def split: option.splits)

lemma fetchAppleMusicPlaylist_trace:
  "\<exists>evs. snd (fetchAppleMusicPlaylist e s i tr) = tr @ evs \<and> progress_events evs = [] \<and> storage_events evs = []"
  by (auto simp: fetchAppleMusicPlaylist_def)

lemma try_instances_trace:
  "\<exists>evs. snd (try_instances e i insts tr) = tr @ evs \<and> progress_events evs = [] \<and> storage_events evs = []"
proof (induction insts arbitrary: tr)
  case Nil
  then show ?case by simp
next
  case (Cons inst rest)
  let ?tr1 = "tr @ [Fetch (invidious_request inst i)]"
  from Cons.IH [of ?tr1] obtain evs where
    evs: "snd (try_instances e i rest ?tr1) = ?tr1 @ evs" "progress_events evs = []" "storage_events evs = []"
    by blast
  show ?case
  proof (cases "case fetch e tr (invidious_request inst i) of None \<Rightarrow> None
                | Some response \<Rightarrow> youtube_attempt response")
    case None
    then have "snd (try_instances e i (inst # rest) tr) = tr @ (Fetch (invidious_request inst i) # evs)"
      using evs by simp
    moreover have "progress_events (Fetch (invidious_request inst i) # evs) = []"
      "storage_events (Fetch (invidious_request inst i) # evs) = []"
      using evs by simp_all
    ultimately show ?thesis by blast
  next
    case (Some pd)
    then have "snd (try_instances e i (inst # rest) tr) = tr @ [Fetch (invidious_request inst i)]"
      by simp
    moreover have "progress_events [Fetch (invidious_request inst i)] = []"
      "storage_events [Fetch (invidious_request inst i)] = []" by simp_all
    ultimately show ?thesis by blast
  qed
qed

lemma fetch_for_platform_trace:
  "\<exists>evs. snd (fetch_for_platform e p url tr) = tr @ evs \<and> progress_events evs = [] \<and> storage_events evs = []"
proof (cases p)
  case Spotify
  show ?thesis
  proof (cases "parseSpotifyUrl url")
    case None
    with Spotify show ?thesis by (simp add: fetch_for_platform_def)
  next
    case (Some i)
    with Spotify fetchSpotifyPlaylist_trace [of e i tr] show ?thesis
      by (auto simp: fetch_for_platform_def split: prod.splits)
  qed
next
  case Apple
  show ?thesis
  proof (cases "parseAppleMusicUrl url")
    case None
    with Apple show ?thesis by (simp add: fetch_for_platform_def)
  next
    case (Some r)
    with Apple fetchAppleMusicPlaylist_trace [of e "storefront r" "apple_ref.id' r" tr] show ?thesis
      by (auto simp: fetch_for_platform_def split: prod.splits)
  qed
next
  case YouTube
  show ?thesis
  proof (cases "parseYouTubeMusicUrl url")
    case None
    with YouTube show ?thesis by (simp add: fetch_for_platform_def)
  next
    case (Some i)
    with YouTube try_instances_trace [of e i INVIDIOUS_INSTANCES tr] show ?thesis
      by (auto simp: fetch_for_platform_def fetchYouTubeMusicPlaylist_def split: prod.splits)
  qed
next
  case Unknown
  then show ?thesis by (simp add: fetch_for_platform_def)
qed

lemma fetch_for_platform_early:
  assumes "fetch_for_platform e p url tr = (Inl r, tr')"
  shows "tr' = tr \<and> (\<exists>msg. msg \<noteq> [] \<and> r = early_failure msg)"
  using assms
  by (auto simp: fetch_for_platform_def split: ImportPlatform.splits option.splits prod.splits if_splits)

text \<open>The matching loop, one iteration at a time.\<close>

lemma match_loop_done:
  "\<not> i < length ts \<Longrightarrow> match_loop e cb ts n i ms us tr = (Inr (ms, us), tr)"
  by (simp add: match_loop.simps)

lemma announce_track_cases:
  "announce_track e cb track i n tr = Inl f \<Longrightarrow>
   f = TypeError \<and> cb \<and> to_string e (ImportedTrack.title track) = None"
  "announce_track e cb (ts ! i) i n tr = Inr tr1 \<Longrightarrow>
   tr1 = emit cb (matching_progress e ts n i) tr"
  by (auto simp: announce_track_def emit_def matching_progress_def title_text_def
           split: if_splits option.splits)

lemma match_loop_step:
  assumes "i < length ts"
    and "announce_track e cb (ts ! i) i n tr = Inr tr1"
    and "matchTrack e (ts ! i) tr1 = (Inr matched, tr2)"
  shows "match_loop e cb ts n i ms us tr =
           match_loop e cb ts n (Suc i)
             (case matched of Some m \<Rightarrow> ms @ [m] | None \<Rightarrow> ms)
             (case matched of Some m \<Rightarrow> us | None \<Rightarrow> us @ [ts ! i])
             (if i < length ts - 1 then tr2 @ [Sleep 200] else tr2)"
  using assms by (subst match_loop.simps) simp

lemma match_loop_rejected_step:
  assumes "i < length ts"
    and "announce_track e cb (ts ! i) i n tr = Inl f \<or>
         (\<exists>tr1 tr2. announce_track e cb (ts ! i) i n tr = Inr tr1 \<and>
                    matchTrack e (ts ! i) tr1 = (Inl f, tr2))"
  shows "\<exists>tr'. match_loop e cb ts n i ms us tr = (Inl f, tr')"
  using assms by (subst match_loop.simps) auto

text \<open>Either the body raises, or the loop goes on with the next index.\<close>

lemma match_loop_unfold:
  assumes "i < length ts"
  obtains (rejected) f tr' where "match_loop e cb ts n i ms us tr = (Inl f, tr')"
  | (stepped) matched tr2 where
      "matchTrack e (ts ! i) (emit cb (matching_progress e ts n i) tr) = (Inr matched, tr2)"
      "cb \<longrightarrow> to_string e (ImportedTrack.title (ts ! i)) \<noteq> None"
      "match_loop e cb ts n i ms us tr =
         match_loop e cb ts n (Suc i)
           (case matched of Some m \<Rightarrow> ms @ [m] | None \<Rightarrow> ms)
           (case matched of Some m \<Rightarrow> us | None \<Rightarrow> us @ [ts ! i])
           (if i < length ts - 1 then tr2 @ [Sleep 200] else tr2)"
proof (cases "announce_track e cb (ts ! i) i n tr")
  case (Inl f)
  with match_loop_rejected_step [OF assms, of e cb n tr f] rejected show ?thesis by blast
next
  case (Inr tr1)
  from announce_track_cases(2) [OF Inr] have tr1: "tr1 = emit cb (matching_progress e ts n i) tr" .
  from Inr have t: "cb \<longrightarrow> to_string e (ImportedTrack.title (ts ! i)) \<noteq> None"
    by (auto simp: announce_track_def split: if_splits option.splits)
  obtain x tr2 where m: "matchTrack e (ts ! i) tr1 = (x, tr2)" by (cases "matchTrack e (ts ! i) tr1")
  show ?thesis
  proof (cases x)
    case (Inl f)
    with m Inr match_loop_rejected_step [OF assms, of e cb n tr f] rejected show ?thesis by blast
  next
    case r: (Inr matched)
    with m have m': "matchTrack e (ts ! i) tr1 = (Inr matched, tr2)" by simp
    from match_loop_step [OF assms Inr m'] m' t tr1 stepped show ?thesis by blast
  qed
qed


lemma match_loop_none_matched:
  "match_loop e cb ts n i ms us tr = (Inr ([], us'), tr') \<Longrightarrow> ms = [] \<and> us' = us @ drop i ts"
proof (induction "length ts - i" arbitrary: i ms us tr)
  case 0
  then show ?case by (simp add: match_loop_done)
next
  case (Suc k)
  then have lt: "i < length ts" by simp
  from Suc.hyps(2) have k: "k = length ts - Suc i" by simp
  from lt show ?case
  proof (cases rule: match_loop_unfold [where e=e and cb=cb and n=n and ms=ms and us=us and tr=tr])
    case (rejected f tr'')
    with Suc.prems show ?thesis by simp
  next
    case (stepped matched tr2)
    with Suc.prems have
      "match_loop e cb ts n (Suc i)
         (case matched of Some m \<Rightarrow> ms @ [m] | None \<Rightarrow> ms)
         (case matched of Some m \<Rightarrow> us | None \<Rightarrow> us @ [ts ! i])
         (if i < length ts - 1 then tr2 @ [Sleep 200] else tr2) = (Inr ([], us'), tr')"
      by simp
    from Suc.hyps(1) [OF k this] lt show ?thesis
      by (cases matched) (simp_all add: Cons_nth_drop_Suc)
  qed
qed

lemma match_loop_trace:
  "match_loop e cb ts n i ms us tr = (Inr (ms', us'), tr') \<Longrightarrow>
   \<exists>evs. tr' = tr @ evs \<and> storage_events evs = [] \<and>
         progress_events evs = (if cb then map (matching_progress e ts n) [i..<length ts] else [])"
proof (induction "length ts - i" arbitrary: i ms us tr)
  case 0
  then show ?case by (simp add: match_loop_done)
next
  case (Suc k)
  then have lt: "i < length ts" by simp
  from Suc.hyps(2) have k: "k = length ts - Suc i" by simp
  from lt show ?case
  proof (cases rule: match_loop_unfold [where e=e and cb=cb and n=n and ms=ms and us=us and tr=tr])
    case (rejected f tr'')
    with Suc.prems show ?thesis by simp
  next
    case (stepped matched tr2)
    let ?tr1 = "emit cb (matching_progress e ts n i) tr"
    from matchTrack_trace [of e "ts ! i" ?tr1] stepped(1) obtain evs1 where
      evs1: "tr2 = ?tr1 @ evs1" "progress_events evs1 = []" "storage_events evs1 = []"
      by auto
    let ?tr3 = "if i < length ts - 1 then tr2 @ [Sleep 200] else tr2"
    from stepped(3) Suc.prems have
      "match_loop e cb ts n (Suc i)
         (case matched of Some m \<Rightarrow> ms @ [m] | None \<Rightarrow> ms)
         (case matched of Some m \<Rightarrow> us | None \<Rightarrow> us @ [ts ! i])
         ?tr3 = (Inr (ms', us'), tr')"
      by simp
    from Suc.hyps(1) [OF k this] obtain evs2 where
      evs2: "tr' = ?tr3 @ evs2" "storage_events evs2 = []"
        "progress_events evs2 =
           (if cb then map (matching_progress e ts n) [Suc i..<length ts] else [])"
      by blast
    let ?evs = "(if cb then [Progress (matching_progress e ts n i)] else []) @ evs1 @
                (if i < length ts - 1 then [Sleep 200] else []) @ evs2"
    have "tr' = tr @ ?evs"
      using evs1(1) evs2(1) by (simp add: emit_append)
    moreover have "storage_events ?evs = []"
      using evs1(3) evs2(2) by simp
    moreover have "progress_events ?evs =
                     (if cb then map (matching_progress e ts n) [i..<length ts] else [])"
      using evs1(2) evs2(3) lt by (simp add: upt_conv_Cons)
    ultimately show ?thesis by blast
  qed
qed

text \<open>Over tracks that have a string for their title and artist the loop does not raise.\<close>

lemma match_loop_has_text:
  "list_all (has_text e) (drop i ts) \<Longrightarrow>
   \<exists>ms' us' tr'. match_loop e cb ts n i ms us tr = (Inr (ms', us'), tr')"
proof (induction "length ts - i" arbitrary: i ms us tr)
  case 0
  then show ?case by (simp add: match_loop_done)
next
  case (Suc k)
  then have lt: "i < length ts" by simp
  from Suc.hyps(2) have k: "k = length ts - Suc i" by simp
  from Suc.prems lt have h: "has_text e (ts ! i)" and rest: "list_all (has_text e) (drop (Suc i) ts)"
    by (simp_all add: Cons_nth_drop_Suc [symmetric])
  from h have a: "announce_track e cb (ts ! i) i n tr = Inr (emit cb (matching_progress e ts n i) tr)"
    by (auto simp: announce_track_def has_text_def emit_def matching_progress_def title_text_def)
  from matchTrack_has_text [OF h] obtain matched tr2 where
    m: "matchTrack e (ts ! i) (emit cb (matching_progress e ts n i) tr) = (Inr matched, tr2)"
    by (metis prod.collapse)
  from Suc.hyps(1) [OF k rest] match_loop_step [OF lt a m] show ?case by simp
qed

lemma importPlaylist_matched:
  assumes p: "detectPlatform e url = p" "p \<noteq> Unknown"
    and f: "fetch_for_platform e p url (emit cb (fetching_announcement p) tr) = (Inr (oid, Some pd), tr2)"
    and ne: "playlist_data.tracks pd \<noteq> []"
    and l: "match_loop e cb (playlist_data.tracks pd) (length (playlist_data.tracks pd)) 0 [] []
              (emit cb (matching_announcement (length (playlist_data.tracks pd))) tr2)
            = (Inr (matched, unmatched), tr4)"
  shows "importPlaylist e cb url tr =
     (if matched = [] then
        (Inr \<lparr>success = False, playlist = None, totalTracks = length (playlist_data.tracks pd),
              matchedTracks = 0, unmatchedTracks = unmatched,
              error = Some (lit ''Could not match any tracks. Try a different playlist.'')\<rparr>, tr4)
      else
        (case createPlaylist e (emit cb \<lparr>stage = Saving, current = 0, total = 0,
                                          message = lit ''Saving playlist...''\<rparr> tr4) (name pd) of
           None \<Rightarrow>
             (Inl StorageRejected,
              emit cb \<lparr>stage = Saving, current = 0, total = 0, message = lit ''Saving playlist...''\<rparr> tr4
                @ [CreatePlaylist (name pd)])
         | Some newPlaylist \<Rightarrow>
             (let updated = newPlaylist
                    \<lparr>UserPlaylist.tracks := matched,
                     UserPlaylist.coverArt := js_or (PlaylistTrack.coverArt (hd matched)) JUndefined,
                     importSource := Some \<lparr>platform = p, originalId = oid, originalName = name pd\<rparr>\<rparr>;
                  tr6 = emit cb \<lparr>stage = Saving, current = 0, total = 0,
                                  message = lit ''Saving playlist...''\<rparr> tr4 @ [CreatePlaylist (name pd)]
              in if updatePlaylist e tr6 updated then
                   (Inr \<lparr>success = True, playlist = Some updated,
                         totalTracks = length (playlist_data.tracks pd),
                         matchedTracks = length matched, unmatchedTracks = unmatched, error = None\<rparr>,
                    emit cb \<lparr>stage = Done, current = length matched,
                              total = length (playlist_data.tracks pd),
                              message = lit ''Import complete!''\<rparr> (tr6 @ [UpdatePlaylist updated]))
                 else (Inl StorageRejected, tr6 @ [UpdatePlaylist updated]))))"
proof -
  have f': "fetch_for_platform e p url
      (emit cb \<lparr>stage = Fetching, current = 0, total = 0,
                message = lit ''Fetching playlist from '' @ platform_tag p @ lit ''...''\<rparr> tr)
      = (Inr (oid, Some pd), tr2)"
    using f by (simp add: fetching_announcement_def)
  have l': "match_loop e cb (playlist_data.tracks pd) (length (playlist_data.tracks pd)) 0 [] []
      (emit cb \<lparr>stage = Matching, current = 0, total = length (playlist_data.tracks pd),
                message = lit ''Matching '' @ digits (length (playlist_data.tracks pd)) @
                          lit '' tracks...''\<rparr> tr2)
      = (Inr (matched, unmatched), tr4)"
    using l by (simp add: matching_announcement_def)
  show ?thesis
    unfolding importPlaylist_def Let_def p(1)
    using p(2) ne
    by (simp only: f' l' prod.case sum.case option.case if_False length_0_conv)
       (cases matched; simp split: option.splits)
qed

lemma importPlaylist_rejected:
  assumes p: "detectPlatform e url = p" "p \<noteq> Unknown"
    and f: "fetch_for_platform e p url (emit cb (fetching_announcement p) tr) = (Inr (oid, Some pd), tr2)"
    and ne: "playlist_data.tracks pd \<noteq> []"
    and l: "match_loop e cb (playlist_data.tracks pd) (length (playlist_data.tracks pd)) 0 [] []
              (emit cb (matching_announcement (length (playlist_data.tracks pd))) tr2)
            = (Inl x, tr4)"
  shows "importPlaylist e cb url tr = (Inl x, tr4)"
proof -
  have f': "fetch_for_platform e p url
      (emit cb \<lparr>stage = Fetching, current = 0, total = 0,
                message = lit ''Fetching playlist from '' @ platform_tag p @ lit ''...''\<rparr> tr)
      = (Inr (oid, Some pd), tr2)"
    using f by (simp add: fetching_announcement_def)
  have l': "match_loop e cb (playlist_data.tracks pd) (length (playlist_data.tracks pd)) 0 [] []
      (emit cb \<lparr>stage = Matching, current = 0, total = length (playlist_data.tracks pd),
                message = lit ''Matching '' @ digits (length (playlist_data.tracks pd)) @
                          lit '' tracks...''\<rparr> tr2)
      = (Inl x, tr4)"
    using l by (simp add: matching_announcement_def)
  show ?thesis
    unfolding importPlaylist_def Let_def p(1)
    using p(2) ne
    by (simp only: f' l' prod.case sum.case option.case if_False length_0_conv)
qed

lemma importPlaylist_early_return:
  assumes p: "detectPlatform e url = p" "p \<noteq> Unknown"
    and f: "fetch_for_platform e p url (emit cb (fetching_announcement p) tr) = (Inl r, tr2)"
  shows "importPlaylist e cb url tr = (Inr r, tr2)"
proof -
  have f': "fetch_for_platform e p url
      (emit cb \<lparr>stage = Fetching, current = 0, total = 0,
                message = lit ''Fetching playlist from '' @ platform_tag p @ lit ''...''\<rparr> tr)
      = (Inl r, tr2)"
    using f by (simp add: fetching_announcement_def)
  show ?thesis
    unfolding importPlaylist_def Let_def p(1)
    using p(2) by (simp only: f' prod.case sum.case if_False)
qed

lemma importPlaylist_no_result:
  assumes p: "detectPlatform e url = p" "p \<noteq> Unknown"
    and f: "fetch_for_platform e p url (emit cb (fetching_announcement p) tr) = (Inr (oid, None), tr2)"
  shows "importPlaylist e cb url tr =
           (Inr (early_failure ''Could not fetch playlist. Make sure it's a public playlist.''), tr2)"
proof -
  have f': "fetch_for_platform e p url
      (emit cb \<lparr>stage = Fetching, current = 0, total = 0,
                message = lit ''Fetching playlist from '' @ platform_tag p @ lit ''...''\<rparr> tr)
      = (Inr (oid, None), tr2)"
    using f by (simp add: fetching_announcement_def)
  show ?thesis
    unfolding importPlaylist_def Let_def p(1)
    using p(2) by (simp only: f' prod.case sum.case option.case if_False)
qed

lemma importPlaylist_no_tracks:
  assumes p: "detectPlatform e url = p" "p \<noteq> Unknown"
    and f: "fetch_for_platform e p url (emit cb (fetching_announcement p) tr) = (Inr (oid, Some pd), tr2)"
    and em: "playlist_data.tracks pd = []"
  shows "importPlaylist e cb url tr =
           (Inr (early_failure ''Could not fetch playlist. Make sure it's a public playlist.''), tr2)"
proof -
  have f': "fetch_for_platform e p url
      (emit cb \<lparr>stage = Fetching, current = 0, total = 0,
                message = lit ''Fetching playlist from '' @ platform_tag p @ lit ''...''\<rparr> tr)
      = (Inr (oid, Some pd), tr2)"
    using f by (simp add: fetching_announcement_def)
  show ?thesis
    unfolding importPlaylist_def Let_def p(1)
    using p(2) by (simp only: f' em prod.case sum.case option.case if_False list.size simp_thms if_True)
qed

text \<open>
  The ways through \<open>importPlaylist\<close>: an early return, a raise in the matching loop, or
  a loop that ran to its end.
\<close>

lemma importPlaylist_paths:
  obtains (early) msg where "msg \<noteq> []"
      "fst (importPlaylist e cb url tr) = Inr (early_failure msg)"
  | (raised) x where "fst (importPlaylist e cb url tr) = Inl x"
  | (matched) p oid pd tr2 matched unmatched tr4 where
      "detectPlatform e url = p" "p \<noteq> Unknown"
      "fetch_for_platform e p url (emit cb (fetching_announcement p) tr) = (Inr (oid, Some pd), tr2)"
      "playlist_data.tracks pd \<noteq> []"
      "match_loop e cb (playlist_data.tracks pd) (length (playlist_data.tracks pd)) 0 [] []
         (emit cb (matching_announcement (length (playlist_data.tracks pd))) tr2)
       = (Inr (matched, unmatched), tr4)"
proof (cases "detectPlatform e url = Unknown")
  case True
  then have "fst (importPlaylist e cb url tr) =
      Inr (early_failure ''Unsupported URL. Please use a Spotify, Apple Music, or YouTube Music playlist link.'')"
    by (simp add: importPlaylist_def)
  then show ?thesis by (rule early [rotated]) simp
next
  case False
  define p where "p = detectPlatform e url"
  with False have p: "detectPlatform e url = p" "p \<noteq> Unknown" by simp_all
  obtain x tr2 where f: "fetch_for_platform e p url (emit cb (fetching_announcement p) tr) = (x, tr2)"
    by (cases "fetch_for_platform e p url (emit cb (fetching_announcement p) tr)")
  show ?thesis
  proof (cases x)
    case (Inl r)
    with f have f1: "fetch_for_platform e p url (emit cb (fetching_announcement p) tr) = (Inl r, tr2)"
      by simp
    from fetch_for_platform_early [OF f1] obtain msg where "msg \<noteq> []" "r = early_failure msg"
      by blast
    moreover have "fst (importPlaylist e cb url tr) = Inr r"
      by (simp add: importPlaylist_early_return [OF p f1])
    ultimately show ?thesis using early by blast
  next
    case (Inr y)
    obtain oid pdo where y: "y = (oid, pdo)" by (cases y)
    show ?thesis
    proof (cases pdo)
      case None
      with f Inr y have f2:
        "fetch_for_platform e p url (emit cb (fetching_announcement p) tr) = (Inr (oid, None), tr2)"
        by simp
      have "fst (importPlaylist e cb url tr) =
          Inr (early_failure ''Could not fetch playlist. Make sure it's a public playlist.'')"
        by (simp add: importPlaylist_no_result [OF p f2])
      then show ?thesis by (rule early [rotated]) simp
    next
      case (Some pd)
      with f Inr y have f3:
        "fetch_for_platform e p url (emit cb (fetching_announcement p) tr) = (Inr (oid, Some pd), tr2)"
        by simp
      show ?thesis
      proof (cases "playlist_data.tracks pd = []")
        case True
        have "fst (importPlaylist e cb url tr) =
            Inr (early_failure ''Could not fetch playlist. Make sure it's a public playlist.'')"
          by (simp add: importPlaylist_no_tracks [OF p f3 True])
        then show ?thesis by (rule early [rotated]) simp
      next
        case False
        obtain z tr4 where l:
          "match_loop e cb (playlist_data.tracks pd) (length (playlist_data.tracks pd)) 0 [] []
             (emit cb (matching_announcement (length (playlist_data.tracks pd))) tr2)
           = (z, tr4)"
          by (cases "match_loop e cb (playlist_data.tracks pd) (length (playlist_data.tracks pd)) 0 [] []
             (emit cb (matching_announcement (length (playlist_data.tracks pd))) tr2)")
        show ?thesis
        proof (cases z)
          case (Inl x)
          with l importPlaylist_rejected [OF p f3 False, of x tr4] raised show ?thesis by simp
        next
          case (Inr mu)
          then obtain matched unmatched where "z = Inr (matched, unmatched)" by (cases mu) simp
          with l p f3 False show ?thesis using matched by blast
        qed
      qed
    qed
  qed
qed

lemma matched_trace:
  assumes f: "fetch_for_platform e p url (emit cb (fetching_announcement p) tr) = (x, tr2)"
    and l: "match_loop e cb ts n 0 [] [] (emit cb (matching_announcement n) tr2)
            = (Inr (matched, unmatched), tr4)"
  shows "\<exists>evs. tr4 = tr @ evs \<and> storage_events evs = [] \<and>
           progress_events evs =
             (if cb then fetching_announcement p # matching_announcement n #
                         map (matching_progress e ts n) [0..<length ts]
              else [])"
proof -
  from fetch_for_platform_trace [of e p url "emit cb (fetching_announcement p) tr"] f
  obtain evsF where evsF: "tr2 = emit cb (fetching_announcement p) tr @ evsF"
    "progress_events evsF = []" "storage_events evsF = []"
    by auto
  from match_loop_trace [OF l] obtain evsL where evsL:
    "tr4 = emit cb (matching_announcement n) tr2 @ evsL" "storage_events evsL = []"
    "progress_events evsL = (if cb then map (matching_progress e ts n) [0..<length ts] else [])"
    by blast
  let ?evs = "(if cb then [Progress (fetching_announcement p)] else []) @ evsF @
              (if cb then [Progress (matching_announcement n)] else []) @ evsL"
  have "tr4 = tr @ ?evs" using evsF(1) evsL(1) by (simp add: emit_append)
  moreover have "storage_events ?evs = []" using evsF(3) evsL(2) by simp
  moreover have "progress_events ?evs =
             (if cb then fetching_announcement p # matching_announcement n #
                         map (matching_progress e ts n) [0..<length ts]
              else [])"
    using evsF(2) evsL(3) by simp
  ultimately show ?thesis by blast
qed

lemma importPlaylist_tail:
  assumes p: "detectPlatform e url = p" "p \<noteq> Unknown"
    and f: "fetch_for_platform e p url (emit cb (fetching_announcement p) tr) = (Inr (oid, Some pd), tr2)"
    and ne: "playlist_data.tracks pd \<noteq> []"
    and l: "match_loop e cb (playlist_data.tracks pd) (length (playlist_data.tracks pd)) 0 [] []
              (emit cb (matching_announcement (length (playlist_data.tracks pd))) tr2)
            = (Inr (matched, unmatched), tr4)"
  shows "\<exists>tl. snd (importPlaylist e cb url tr) = tr4 @ tl \<and> matching_events tl = [] \<and>
              (matched = [] \<longrightarrow> tl = [])"
proof (cases "matched = []")
  case True
  then show ?thesis
    by (simp add: importPlaylist_matched [OF p f ne l] matching_events_def)
next
  case False
  then show ?thesis
    by (auto simp: importPlaylist_matched [OF p f ne l] matching_events_def emit_append Let_def
             split: option.splits)
qed

lemma first_match_no_results: "no_results r \<Longrightarrow> first_match r = None"
  by (auto simp: no_results_def first_match_def)

lemma map_or_throw_length: "map_or_throw f xs = Some ys \<Longrightarrow> length ys = length xs"
  by (induction xs arbitrary: ys) (auto split: option.splits)

lemma spotifydown_attempt_filtered:
  "spotifydown_attempt r = Some pd \<Longrightarrow> list_all has_title_and_artist (playlist_data.tracks pd)"
  by (auto simp: spotifydown_attempt_def list_all_iff
           split: if_splits option.splits jsval.splits)

lemma scraper_attempt_filtered:
  "scraper_attempt e r = Some pd \<Longrightarrow> list_all has_title_and_artist (playlist_data.tracks pd)"
  by (auto simp: scraper_attempt_def list_all_iff
           split: if_splits option.splits jsval.splits)

lemma embed_attempt_filtered:
  "embed_attempt e r = Some pd \<Longrightarrow> list_all has_title_and_artist (playlist_data.tracks pd)"
  by (auto simp: embed_attempt_def list_all_iff
           split: if_splits option.splits jsval.splits)

lemma fetchSpotifyPlaylist_filtered:
  "fst (fetchSpotifyPlaylist e i tr) = Some pd \<Longrightarrow>
   list_all has_title_and_artist (playlist_data.tracks pd)"
  by (auto simp: fetchSpotifyPlaylist_def Let_def
           dest: spotifydown_attempt_filtered scraper_attempt_filtered embed_attempt_filtered
           split: option.splits)

lemma js_map_array:
  "js_map f v = Some ys \<Longrightarrow> \<exists>raw. v = JArr raw \<and> map_or_throw f raw = Some ys"
  by (cases v) simp_all

lemma apple_attempt_unfiltered:
  assumes "apple_attempt e resp = Some pd"
  shows "\<exists>data raw. json_body resp = Some data \<and>
           apple_track_data (opt_idx0 (fld data ''data'')) = JArr raw \<and>
           map_or_throw (apple_track e) raw = Some (playlist_data.tracks pd) \<and>
           length (playlist_data.tracks pd) = length raw"
proof -
  from assms obtain data mapped where
    d: "json_body resp = Some data"
    and m: "js_map (apple_track e) (apple_track_data (opt_idx0 (fld data ''data''))) = Some mapped"
    and t: "playlist_data.tracks pd = mapped"
    by (auto simp: apple_attempt_def Let_def split: if_splits option.splits)
  from js_map_array [OF m] obtain raw where
    "apple_track_data (opt_idx0 (fld data ''data'')) = JArr raw"
    "map_or_throw (apple_track e) raw = Some mapped"
    by blast
  with d t map_or_throw_length show ?thesis by blast
qed

lemma youtube_attempt_unfiltered:
  assumes "youtube_attempt resp = Some pd"
  shows "\<exists>data raw. json_body resp = Some data \<and>
           youtube_video_data data = JArr raw \<and>
           map_or_throw youtube_track raw = Some (playlist_data.tracks pd) \<and>
           length (playlist_data.tracks pd) = length raw"
proof -
  from assms obtain data mapped where
    d: "json_body resp = Some data"
    and m: "js_map youtube_track (youtube_video_data data) = Some mapped"
    and t: "playlist_data.tracks pd = mapped"
    by (auto simp: youtube_attempt_def split: if_splits option.splits)
  from js_map_array [OF m] obtain raw where
    "youtube_video_data data = JArr raw" "map_or_throw youtube_track raw = Some mapped"
    by blast
  with d t map_or_throw_length show ?thesis by blast
qed

lemma try_instances_source:
  "fst (try_instances e i insts tr) = Some pd \<Longrightarrow>
   \<exists>h inst resp. inst \<in> set insts \<and> fetch e h (invidious_request inst i) = Some resp \<and>
      youtube_attempt resp = Some pd"
proof (induction insts arbitrary: tr)
  case Nil
  then show ?case by simp
next
  case (Cons inst rest)
  show ?case
  proof (cases "case fetch e tr (invidious_request inst i) of None \<Rightarrow> None
                | Some response \<Rightarrow> youtube_attempt response")
    case None
    with Cons.prems have
      "fst (try_instances e i rest (tr @ [Fetch (invidious_request inst i)])) = Some pd"
      by simp
    from Cons.IH [OF this] show ?thesis by auto
  next
    case (Some pd')
    with Cons.prems have "pd' = pd" by simp
    with Some obtain resp where "fetch e tr (invidious_request inst i) = Some resp"
      "youtube_attempt resp = Some pd"
      by (auto split: option.splits)
    then show ?thesis by auto
  qed
qed

text \<open>
  The order of the three Spotify strategies: a strategy is tried when the ones before
  it gave nothing, and the first that gives a payload ends the fetch.
\<close>

lemma fetchSpotifyPlaylist_first_wins:
  assumes "fetch e tr (spotifydown_request i) = Some r" and "spotifydown_attempt r = Some pd"
  shows "fetchSpotifyPlaylist e i tr = (Some pd, tr @ [Fetch (spotifydown_request i)])"
  using assms by (simp add: fetchSpotifyPlaylist_def)

lemma fetchSpotifyPlaylist_all_fail:
  assumes "(case fetch e tr (spotifydown_request i) of
              None \<Rightarrow> None | Some r \<Rightarrow> spotifydown_attempt r) = None"
    and "(case fetch e (tr @ [Fetch (spotifydown_request i)]) (scraper_request i) of
              None \<Rightarrow> None | Some r \<Rightarrow> scraper_attempt e r) = None"
    and "(case fetch e (tr @ [Fetch (spotifydown_request i), Fetch (scraper_request i)])
                (embed_request i) of
              None \<Rightarrow> None | Some r \<Rightarrow> embed_attempt e r) = None"
  shows "fetchSpotifyPlaylist e i tr =
           (None, tr @ [Fetch (spotifydown_request i), Fetch (scraper_request i),
                        Fetch (embed_request i)])"
  using assms by (simp add: fetchSpotifyPlaylist_def Let_def)

text \<open>The conversions and the parsers on sample inputs.\<close>

lemma to_string_examples:
  "to_string demo_env (JStr (lit ''A'')) = Some (lit ''A'')"
  "to_string demo_env JUndefined = Some (lit ''undefined'')"
  "to_string demo_env (JNum (Finite 42)) = Some (lit ''42'')"
  "to_string demo_env (JNum (Finite (- 7))) = Some (lit ''-7'')"
  "to_string demo_env (JArr [JStr (lit ''A''), JNull, JNum (Finite 1)]) = Some (lit ''A,,1'')"
  "to_string demo_env (JObj [(lit ''name'', JStr (lit ''A''))]) = Some (lit ''[object Object]'')"
  "to_string demo_env (JObj [(lit ''toString'', JNum (Finite 1))]) = None"
  "to_string demo_env (JArr [JObj [(lit ''toString'', JNull)]]) = None"
  by code_simp+

lemma digits_examples: "digits 0 = lit ''0''" "digits 12 = lit ''12''" "digits 305 = lit ''305''"
  by code_simp+

lemma parser_examples:
  "parseSpotifyUrl (lit ''open.spotify.com/playlist/37i9dQ?si=1'') = Some (lit ''37i9dQ'')"
  "parseSpotifyUrl (lit ''open.spotify.com/playlist/'') = None"
  "parseAppleMusicUrl (lit ''music.apple.com/us/playlist/hits/pl.f4d1?l=en'') =
     Some \<lparr>storefront = lit ''us'', id' = lit ''pl.f4d1''\<rparr>"
  "parseAppleMusicUrl (lit ''music.apple.com/US/playlist/hits/pl.f4d1'') = None"
  "parseYouTubeMusicUrl (lit ''youtube.com/playlist?list=PL_x-1&si=2'') = Some (lit ''PL_x-1'')"
  "parseYouTubeMusicUrl (lit ''youtube.com/playlist?v=1'') = None"
  by code_simp+

text \<open>A track without a string for its title or its artist: the matcher raises at once.\<close>

lemma matchTrack_no_text:
  "\<not> has_text e track \<Longrightarrow> matchTrack e track tr = (Inl TypeError, tr)"
  by (auto simp: matchTrack_def has_text_def split: option.splits)

lemma matchTrack_odd: "matchTrack demo_env odd_track [] = (Inl TypeError, [])"
  by code_simp

text \<open>When no backend ever has a result, the loop puts every track on the unmatched list.\<close>

lemma match_loop_no_results:
  assumes "\<And>h q. no_results (searchQobuzOnly e h q)" and "\<And>h q. no_results (searchTidalOnly e h q)"
  shows "list_all (has_text e) (drop i ts) \<Longrightarrow>
         \<exists>tr'. match_loop e cb ts n i ms us tr = (Inr (ms, us @ drop i ts), tr')"
proof (induction "length ts - i" arbitrary: i us tr)
  case 0
  then show ?case by (simp add: match_loop_done)
next
  case (Suc k)
  then have lt: "i < length ts" by simp
  from Suc.hyps(2) have k: "k = length ts - Suc i" by simp
  from Suc.prems lt have h: "has_text e (ts ! i)" and rest: "list_all (has_text e) (drop (Suc i) ts)"
    by (simp_all add: Cons_nth_drop_Suc [symmetric])
  from h have a: "announce_track e cb (ts ! i) i n tr = Inr (emit cb (matching_progress e ts n i) tr)"
    by (auto simp: announce_track_def has_text_def emit_def matching_progress_def title_text_def)
  from h obtain tr2 where
    m: "matchTrack e (ts ! i) (emit cb (matching_progress e ts n i) tr) = (Inr None, tr2)"
    by (auto simp: matchTrack_def has_text_def Let_def first_match_no_results assms)
  from Suc.hyps(1) [OF k rest, of "us @ [ts ! i]"] match_loop_step [OF lt a m] lt show ?case
    by (simp add: Cons_nth_drop_Suc)
qed

section \<open>The track matcher\<close>

text \<open>
  C1. For every imported track whose title and artist have a string, \<open>matchTrack\<close>
  searches with the title and the artist joined by a space, and asks Qobuz first. A
  non-empty Qobuz result list makes it return the first element, with confidence 90 and
  source \<open>qobuz\<close>, and Tidal is not asked. When Qobuz has nothing or raises, Tidal is
  asked, and a non-empty list makes it return the first element with confidence 85 and
  source \<open>tidal\<close>. When both have nothing or raise, there is no match.
\<close>

theorem matchTrack_backends:
  assumes t: "to_string e (ImportedTrack.title track) = Some t"
    and a: "to_string e (ImportedTrack.artist track) = Some a"
    and q: "q = t @ lit '' '' @ a"
  shows
    "(searchQobuzOnly e tr q = Results (Some (m # ms)) \<longrightarrow>
        (\<exists>x. matchTrack e track tr = (Inr (Some x), tr @ [SearchQobuz q]) \<and>
              copies_result x m track \<and> matchConfidence x = 90 \<and> source x = lit ''qobuz'')) \<and>
     (no_results (searchQobuzOnly e tr q) \<and>
      searchTidalOnly e (tr @ [SearchQobuz q]) q = Results (Some (m # ms)) \<longrightarrow>
        (\<exists>x. matchTrack e track tr = (Inr (Some x), tr @ [SearchQobuz q, SearchTidal q]) \<and>
              copies_result x m track \<and> matchConfidence x = 85 \<and> source x = lit ''tidal'')) \<and>
     (no_results (searchQobuzOnly e tr q) \<and>
      no_results (searchTidalOnly e (tr @ [SearchQobuz q]) q) \<longrightarrow>
        matchTrack e track tr = (Inr None, tr @ [SearchQobuz q, SearchTidal q]))"
proof (intro conjI impI)
  assume "searchQobuzOnly e tr q = Results (Some (m # ms))"
  then have "matchTrack e track tr =
      (Inr (Some (matched_track ''qobuz'' 90 m track (now e (tr @ [SearchQobuz q])))),
       tr @ [SearchQobuz q])"
    unfolding matchTrack_def Let_def t a option.case q [symmetric] by (simp add: first_match_def)
  then show "\<exists>x. matchTrack e track tr = (Inr (Some x), tr @ [SearchQobuz q]) \<and>
              copies_result x m track \<and> matchConfidence x = 90 \<and> source x = lit ''qobuz''"
    by (simp add: matched_track_def copies_result_def)
next
  assume "no_results (searchQobuzOnly e tr q) \<and>
      searchTidalOnly e (tr @ [SearchQobuz q]) q = Results (Some (m # ms))"
  then have "matchTrack e track tr =
      (Inr (Some (matched_track ''tidal'' 85 m track (now e (tr @ [SearchQobuz q, SearchTidal q])))),
       tr @ [SearchQobuz q, SearchTidal q])"
    unfolding matchTrack_def Let_def t a option.case q [symmetric]
    by (simp add: first_match_no_results) (simp add: first_match_def)
  then show "\<exists>x. matchTrack e track tr = (Inr (Some x), tr @ [SearchQobuz q, SearchTidal q]) \<and>
              copies_result x m track \<and> matchConfidence x = 85 \<and> source x = lit ''tidal''"
    by (simp add: matched_track_def copies_result_def)
next
  assume "no_results (searchQobuzOnly e tr q) \<and>
      no_results (searchTidalOnly e (tr @ [SearchQobuz q]) q)"
  then show "matchTrack e track tr = (Inr None, tr @ [SearchQobuz q, SearchTidal q])"
    unfolding matchTrack_def Let_def t a option.case q [symmetric]
    by (simp add: first_match_no_results)
qed

text \<open>One track for each of the three cases.\<close>

theorem matchTrack_backends_witness:
  "to_string demo_env (ImportedTrack.title (source_track ''A'' ''B'')) = Some (lit ''A'') \<and>
   to_string demo_env (ImportedTrack.artist (source_track ''A'' ''B'')) = Some (lit ''B'') \<and>
   lit ''A B'' = lit ''A'' @ lit '' '' @ lit ''B'' \<and>
   searchQobuzOnly demo_env [] (lit ''A B'') =
     Results (Some [catalog_track ''A'' (JStr (lit ''cover.jpg'')), catalog_track ''A2'' JNull]) \<and>
   (\<exists>x. matchTrack demo_env (source_track ''A'' ''B'') [] =
          (Inr (Some x), [SearchQobuz (lit ''A B'')]) \<and>
        copies_result x (catalog_track ''A'' (JStr (lit ''cover.jpg''))) (source_track ''A'' ''B'') \<and>
        matchConfidence x = 90 \<and> source x = lit ''qobuz'') \<and>
   no_results (searchQobuzOnly demo_env [] (lit ''D E'')) \<and>
   searchTidalOnly demo_env [SearchQobuz (lit ''D E'')] (lit ''D E'') =
     Results (Some [catalog_track ''D'' JUndefined]) \<and>
   (\<exists>x. matchTrack demo_env (source_track ''D'' ''E'') [] =
          (Inr (Some x), [SearchQobuz (lit ''D E''), SearchTidal (lit ''D E'')]) \<and>
        copies_result x (catalog_track ''D'' JUndefined) (source_track ''D'' ''E'') \<and>
        matchConfidence x = 85 \<and> source x = lit ''tidal'') \<and>
   no_results (searchQobuzOnly demo_env [] (lit ''X Y'')) \<and>
   no_results (searchTidalOnly demo_env [SearchQobuz (lit ''X Y'')] (lit ''X Y'')) \<and>
   matchTrack demo_env (source_track ''X'' ''Y'') [] =
     (Inr None, [SearchQobuz (lit ''X Y''), SearchTidal (lit ''X Y'')])"
proof -
  have ta: "to_string demo_env (ImportedTrack.title (source_track ''A'' ''B'')) = Some (lit ''A'')"
    and aa: "to_string demo_env (ImportedTrack.artist (source_track ''A'' ''B'')) = Some (lit ''B'')"
    and td: "to_string demo_env (ImportedTrack.title (source_track ''D'' ''E'')) = Some (lit ''D'')"
    and ad: "to_string demo_env (ImportedTrack.artist (source_track ''D'' ''E'')) = Some (lit ''E'')"
    and tx: "to_string demo_env (ImportedTrack.title (source_track ''X'' ''Y'')) = Some (lit ''X'')"
    and ax: "to_string demo_env (ImportedTrack.artist (source_track ''X'' ''Y'')) = Some (lit ''Y'')"
    by (simp_all add: source_track_def to_string_def)
  have qa: "lit ''A B'' = lit ''A'' @ lit '' '' @ lit ''B''"
    and qd: "lit ''D E'' = lit ''D'' @ lit '' '' @ lit ''E''"
    and qx: "lit ''X Y'' = lit ''X'' @ lit '' '' @ lit ''Y''"
    by (simp_all add: lit_def)
  have a: "searchQobuzOnly demo_env [] (lit ''A B'') =
     Results (Some [catalog_track ''A'' (JStr (lit ''cover.jpg'')), catalog_track ''A2'' JNull])"
    by (simp add: demo_env_def)
  have d: "no_results (searchQobuzOnly demo_env [] (lit ''D E''))"
    "searchTidalOnly demo_env ([] @ [SearchQobuz (lit ''D E'')]) (lit ''D E'') =
       Results (Some [catalog_track ''D'' JUndefined])"
    by (simp_all add: demo_env_def no_results_def)
  have x: "no_results (searchQobuzOnly demo_env [] (lit ''X Y''))"
    "no_results (searchTidalOnly demo_env ([] @ [SearchQobuz (lit ''X Y'')]) (lit ''X Y''))"
    by (simp_all add: demo_env_def no_results_def)
  from matchTrack_backends [OF ta aa qa, of "[]"] a
       matchTrack_backends [OF td ad qd, of "[]"] d
       matchTrack_backends [OF tx ax qx, of "[]"] x
       ta aa qa
  show ?thesis
    by simp
qed

section \<open>The URL classifier\<close>

text \<open>
  C4. \<open>detectPlatform\<close> returns the platform whose domain the URL mentions, whatever
  the case of the letters: Spotify's domains are looked for first, then Apple Music's,
  then YouTube Music's; a URL that mentions none of them is \<open>unknown\<close>. The function
  has a value on every string. What is assumed of the runtime is that its
  \<open>toLowerCase\<close> follows the Unicode tables.
\<close>

theorem detectPlatform_by_domain:
  assumes "unicode_lowercase (lower_beyond e)"
  shows "detectPlatform e url =
     (if mentions url ''spotify.com'' \<or> mentions url ''spotify.link'' then Spotify
      else if mentions url ''music.apple.com'' \<or> mentions url ''itunes.apple.com'' then Apple
      else if mentions url ''music.youtube.com'' \<or> mentions url ''youtube.com/playlist''
        then YouTube
      else Unknown)"
  by (simp add: detectPlatform_def Let_def includes_mentions [OF assms] domains_plain)

lemma shouting_mentions: "mentions shouting_url ''spotify.com''"
proof -
  have "shouting_url = lit ''HTTPS://OPEN.'' @ lit ''SPOTIFY.COM'' @ lit ''/playlist/abc''"
    by (simp add: shouting_url_def del: lit_append add: lit_append [symmetric])
  moreover have "list_all2 same_letter (lit ''SPOTIFY.COM'') (lit ''spotify.com'')"
    by code_simp
  ultimately show ?thesis unfolding mentions_def by blast
qed

theorem detectPlatform_by_domain_witness:
  "unicode_lowercase (lower_beyond demo_env) \<and>
   mentions shouting_url ''spotify.com'' \<and>
   detectPlatform demo_env shouting_url = Spotify \<and>
   detectPlatform demo_env (lit ''https://www.youtube.com/watch?v=1'') = Unknown"
proof -
  have u: "unicode_lowercase (lower_beyond demo_env)"
    by (simp add: demo_env_def demo_lower_unicode)
  have n: "detectPlatform demo_env (lit ''https://www.youtube.com/watch?v=1'') = Unknown"
    by code_simp
  from detectPlatform_by_domain [OF u, of shouting_url] shouting_mentions
  have "detectPlatform demo_env shouting_url = Spotify" by simp
  with u shouting_mentions n show ?thesis by simp
qed

text \<open>
  The classifier run on capital letters and on the Kelvin sign, which is a letter
  \<open>k\<close> up to case.
\<close>

lemma detectPlatform_capitals:
  "detectPlatform e (lit ''HTTPS://OPEN.SPOTIFY.COM/playlist/abc'') = Spotify"
  "detectPlatform e (lit ''https://Music.Apple.Com/us/playlist/x/pl.1'') = Apple"
  "detectPlatform e (lit ''https://MUSIC.YOUTUBE.COM/playlist?list=PL1'') = YouTube"
  "detectPlatform e (lit ''HTTPS://EXAMPLE.COM/'') = Unknown"
  unfolding detectPlatform_def toLowerCase_def Let_def by code_simp+

lemma detectPlatform_kelvin:
  "detectPlatform demo_env (lit ''https://spotify.lin'' @ [8490]) = Spotify"
  "detectPlatform demo_env (lit ''https://spot'' @ [304] @ lit ''fy.com'') = Unknown"
  by code_simp+

lemma short_link_ascii: "list_all (\<lambda>c. c < 128) (lit ''https://spotify.link/abc123'')"
  by code_simp

lemma short_link_lowered:
  "str_includes (map ascii_lower (lit ''https://spotify.link/abc123'')) (lit ''spotify.link'')"
  by code_simp

lemma short_link_platform: "detectPlatform e (lit ''https://spotify.link/abc123'') = Spotify"
  by (simp add: detectPlatform_def toLowerCase_def short_link_ascii short_link_lowered)

lemma short_link_id: "parseSpotifyUrl (lit ''https://spotify.link/abc123'') = None"
  by code_simp

text \<open>
  C10. The short link \<open>https://spotify.link/abc123\<close> is classified as Spotify, has no
  \<open>playlist/<id>\<close> segment to parse, and so ends the import with the error
  \<open>Invalid Spotify playlist URL\<close>: the trace holds the fetching announcement and no
  call of a fetcher.
\<close>

theorem short_link_is_invalid:
  "detectPlatform e (lit ''https://spotify.link/abc123'') = Spotify \<and>
   parseSpotifyUrl (lit ''https://spotify.link/abc123'') = None \<and>
   importPlaylist e onProgress (lit ''https://spotify.link/abc123'') tr =
     (Inr \<lparr>success = False, playlist = None, totalTracks = 0, matchedTracks = 0,
           unmatchedTracks = [], error = Some (lit ''Invalid Spotify playlist URL'')\<rparr>,
      emit onProgress (fetching_announcement Spotify) tr)"
  by (simp add: short_link_platform short_link_id importPlaylist_def fetch_for_platform_def
        early_failure_def platform_tag_def fetching_announcement_def
        del: parseSpotifyUrl.simps)

section \<open>The import orchestrator\<close>

text \<open>
  C8. For a URL whose platform is \<open>unknown\<close>, \<open>importPlaylist\<close> returns at once:
  no success, zero tracks, zero matches, no unmatched tracks, the message about the
  unsupported URL; the trace is the one it started with, so nothing was emitted.
\<close>

theorem importPlaylist_unknown:
  assumes "detectPlatform e url = Unknown"
  shows "importPlaylist e onProgress url tr =
           (Inr \<lparr>success = False, playlist = None, totalTracks = 0, matchedTracks = 0,
                 unmatchedTracks = [],
                 error = Some (lit ''Unsupported URL. Please use a Spotify, Apple Music, or YouTube Music playlist link.'')\<rparr>,
            tr)"
  using assms by (simp add: importPlaylist_def early_failure_def)

theorem importPlaylist_unknown_witness:
  "detectPlatform demo_env (lit ''https://example.com/playlist/1'') = Unknown \<and>
   importPlaylist demo_env True (lit ''https://example.com/playlist/1'') [] =
     (Inr \<lparr>success = False, playlist = None, totalTracks = 0, matchedTracks = 0,
           unmatchedTracks = [],
           error = Some (lit ''Unsupported URL. Please use a Spotify, Apple Music, or YouTube Music playlist link.'')\<rparr>,
      [])"
proof -
  have h: "detectPlatform demo_env (lit ''https://example.com/playlist/1'') = Unknown"
    by code_simp
  from importPlaylist_unknown [OF h, of True "[]"] h show ?thesis
    by (simp only: simp_thms)
qed

text \<open>
  C2, as the code has it. When the fetch has produced a list of \<open>total\<close> tracks whose
  titles and artists have a string, and there is a callback, the events of the matching
  stage are one announcement with \<open>current = 0\<close> and then one event for each source
  track, in source order, so that \<open>current\<close> runs from 0 to \<open>total\<close> without gap or
  repeat. The claim counts from 1 and one event for each track; the announcement is the
  difference.
\<close>

theorem matching_stage_progress:
  assumes p: "detectPlatform e url = p" "p \<noteq> Unknown"
    and f: "fetch_for_platform e p url (emit True (fetching_announcement p) tr)
            = (Inr (oid, Some pd), tr2)"
    and ne: "playlist_data.tracks pd \<noteq> []"
    and strs: "list_all (has_text e) (playlist_data.tracks pd)"
  shows "\<exists>evs. snd (importPlaylist e True url tr) = tr @ evs \<and>
           matching_events evs =
             matching_announcement (length (playlist_data.tracks pd)) #
             map (matching_progress e (playlist_data.tracks pd) (length (playlist_data.tracks pd)))
               [0..<length (playlist_data.tracks pd)] \<and>
           map current (matching_events evs) = [0..<Suc (length (playlist_data.tracks pd))]"
proof -
  let ?ts = "playlist_data.tracks pd"
  let ?n = "length ?ts"
  from strs have "list_all (has_text e) (drop 0 ?ts)" by simp
  from match_loop_has_text [OF this]
  obtain matched unmatched tr4 where
    l: "match_loop e True ?ts ?n 0 [] [] (emit True (matching_announcement ?n) tr2)
        = (Inr (matched, unmatched), tr4)"
    by blast
  from matched_trace [OF f l] obtain evs where evs: "tr4 = tr @ evs"
    "progress_events evs =
       fetching_announcement p # matching_announcement ?n # map (matching_progress e ?ts ?n) [0..<?n]"
    by auto
  from importPlaylist_tail [OF p f ne l] obtain tl where
    tl: "snd (importPlaylist e True url tr) = tr4 @ tl" "matching_events tl = []"
    by blast
  have keep: "filter (\<lambda>q. stage q = Matching) (map (matching_progress e ?ts ?n) [0..<?n]) =
              map (matching_progress e ?ts ?n) [0..<?n]"
    by (simp add: filter_map o_def)
  have me: "matching_events (evs @ tl) =
              matching_announcement ?n # map (matching_progress e ?ts ?n) [0..<?n]"
    using tl(2) by (simp add: matching_events_def evs(2) keep)
  have "map current (matching_events (evs @ tl)) = 0 # map Suc [0..<?n]"
    unfolding me by (simp add: o_def)
  then have "map current (matching_events (evs @ tl)) = [0..<Suc ?n]"
    by (simp only: upt_0_Suc)
  moreover have "snd (importPlaylist e True url tr) = tr @ (evs @ tl)"
    using evs(1) tl(1) by simp
  ultimately show ?thesis using me by blast
qed

lemma spotify_url_platform: "detectPlatform demo_env spotify_url = Spotify"
  by code_simp

lemma deaf_url_platform: "detectPlatform deaf_env spotify_url = Spotify"
  by code_simp

lemma demo_fetch:
  "fetch_for_platform demo_env Spotify spotify_url (emit True (fetching_announcement Spotify) [])
   = (Inr (lit ''abc'', Some spotify_playlist),
      [Progress (fetching_announcement Spotify), Fetch (spotifydown_request (lit ''abc''))])"
  by code_simp

lemma deaf_fetch:
  "fetch_for_platform deaf_env Spotify spotify_url (emit True (fetching_announcement Spotify) [])
   = (Inr (lit ''abc'', Some spotify_playlist),
      [Progress (fetching_announcement Spotify), Fetch (spotifydown_request (lit ''abc''))])"
  by code_simp

lemma spotify_playlist_tracks:
  "playlist_data.tracks spotify_playlist = [source_track ''A'' ''B'', source_track ''D'' ''E'']"
  by (simp add: spotify_playlist_def)

lemma spotify_playlist_has_text:
  "list_all (has_text demo_env) (playlist_data.tracks spotify_playlist)"
  by (simp add: spotify_playlist_tracks has_text_def source_track_def to_string_def)

theorem matching_stage_progress_witness:
  "detectPlatform demo_env spotify_url = Spotify \<and>
   fetch_for_platform demo_env Spotify spotify_url (emit True (fetching_announcement Spotify) [])
     = (Inr (lit ''abc'', Some spotify_playlist),
        [Progress (fetching_announcement Spotify), Fetch (spotifydown_request (lit ''abc''))]) \<and>
   length (playlist_data.tracks spotify_playlist) = 2 \<and>
   list_all (has_text demo_env) (playlist_data.tracks spotify_playlist) \<and>
   (\<exists>evs. snd (importPlaylist demo_env True spotify_url []) = evs \<and>
          map current (matching_events evs) = [0, 1, 2])"
proof -
  have ne: "playlist_data.tracks spotify_playlist \<noteq> []"
    by (simp add: spotify_playlist_tracks)
  have u: "Spotify \<noteq> Unknown" by simp
  have n: "[0..<Suc (length (playlist_data.tracks spotify_playlist))] = [0, 1, 2]"
    by (simp add: spotify_playlist_tracks upt_rec)
  from matching_stage_progress [OF spotify_url_platform u demo_fetch ne spotify_playlist_has_text] n
  have "\<exists>evs. snd (importPlaylist demo_env True spotify_url []) = evs \<and>
          map current (matching_events evs) = [0, 1, 2]"
    by auto
  with spotify_url_platform demo_fetch spotify_playlist_has_text show ?thesis
    by (simp add: spotify_playlist_tracks)
qed

text \<open>
  The claim as stated fails on a playlist of two tracks: the matching stage emits three
  events, and the first has \<open>current = 0\<close>.
\<close>

theorem matching_events_start_at_zero:
  "totalTracks (projr (fst (importPlaylist demo_env True spotify_url []))) = 2 \<and>
   map current (matching_events (snd (importPlaylist demo_env True spotify_url []))) = [0, 1, 2] \<and>
   map current (matching_events (snd (importPlaylist demo_env True spotify_url []))) \<noteq> [1, 2]"
  by code_simp

text \<open>
  A fetched track whose title is an object with a property \<open>toString\<close>: the import is
  rejected with a TypeError in the second iteration of the loop, after the events of the
  first.
\<close>

lemma importPlaylist_odd:
  "fst (importPlaylist odd_env True spotify_url []) = Inl TypeError \<and>
   map current (matching_events (snd (importPlaylist odd_env True spotify_url []))) = [0, 1] \<and>
   fst (importPlaylist odd_env False spotify_url []) = Inl TypeError"
  by code_simp



text \<open>
  C6. When the fetch has produced \<open>totalTracks\<close> tracks and the matching loop runs to
  its end without a match, \<open>importPlaylist\<close> returns without success, with no matched
  track, with all the fetched tracks as unmatched, and with the message that no track
  could be matched; the trace holds neither a saving event nor a call to the store.
\<close>

theorem no_match_result:
  assumes p: "detectPlatform e url = p" "p \<noteq> Unknown"
    and f: "fetch_for_platform e p url (emit onProgress (fetching_announcement p) tr)
            = (Inr (oid, Some pd), tr2)"
    and ne: "playlist_data.tracks pd \<noteq> []"
    and none: "fst (match_loop e onProgress (playlist_data.tracks pd)
                      (length (playlist_data.tracks pd)) 0 [] []
                      (emit onProgress (matching_announcement (length (playlist_data.tracks pd))) tr2))
               = Inr ([], unmatched)"
  shows "\<exists>evs. importPlaylist e onProgress url tr =
           (Inr \<lparr>success = False, playlist = None,
                 totalTracks = length (playlist_data.tracks pd), matchedTracks = 0,
                 unmatchedTracks = playlist_data.tracks pd,
                 error = Some (lit ''Could not match any tracks. Try a different playlist.'')\<rparr>,
            tr @ evs) \<and>
           storage_events evs = [] \<and> saving_events evs = []"
proof -
  let ?ts = "playlist_data.tracks pd"
  from none obtain tr4 where
    l: "match_loop e onProgress ?ts (length ?ts) 0 [] []
          (emit onProgress (matching_announcement (length ?ts)) tr2) = (Inr ([], unmatched), tr4)"
    by (metis prod.collapse)
  from match_loop_none_matched [OF l] have u: "unmatched = ?ts" by simp
  from matched_trace [OF f l] obtain evs where evs: "tr4 = tr @ evs" "storage_events evs = []"
    "progress_events evs =
       (if onProgress
        then fetching_announcement p # matching_announcement (length ?ts) #
             map (matching_progress e ?ts (length ?ts)) [0..<length ?ts]
        else [])"
    by blast
  have "saving_events evs = []"
    unfolding saving_events_def evs(3)
    by (simp add: fetching_announcement_def matching_announcement_def matching_progress_def)
  with importPlaylist_matched [OF p f ne l] u evs(1,2) show ?thesis by simp
qed

lemma deaf_loop:
  "fst (match_loop deaf_env True (playlist_data.tracks spotify_playlist)
          (length (playlist_data.tracks spotify_playlist)) 0 [] []
          (emit True (matching_announcement (length (playlist_data.tracks spotify_playlist)))
             [Progress (fetching_announcement Spotify), Fetch (spotifydown_request (lit ''abc''))]))
   = Inr ([], [source_track ''A'' ''B'', source_track ''D'' ''E''])"
  by code_simp

theorem no_match_result_witness:
  "detectPlatform deaf_env spotify_url = Spotify \<and>
   fetch_for_platform deaf_env Spotify spotify_url (emit True (fetching_announcement Spotify) [])
     = (Inr (lit ''abc'', Some spotify_playlist),
        [Progress (fetching_announcement Spotify), Fetch (spotifydown_request (lit ''abc''))]) \<and>
   fst (match_loop deaf_env True (playlist_data.tracks spotify_playlist)
          (length (playlist_data.tracks spotify_playlist)) 0 [] []
          (emit True (matching_announcement (length (playlist_data.tracks spotify_playlist)))
             [Progress (fetching_announcement Spotify), Fetch (spotifydown_request (lit ''abc''))]))
     = Inr ([], [source_track ''A'' ''B'', source_track ''D'' ''E'']) \<and>
   (\<exists>evs. importPlaylist deaf_env True spotify_url [] =
           (Inr \<lparr>success = False, playlist = None, totalTracks = 2, matchedTracks = 0,
                 unmatchedTracks = [source_track ''A'' ''B'', source_track ''D'' ''E''],
                 error = Some (lit ''Could not match any tracks. Try a different playlist.'')\<rparr>,
            evs) \<and>
          storage_events evs = [] \<and> saving_events evs = [])"
proof -
  have ne: "playlist_data.tracks spotify_playlist \<noteq> []"
    by (simp add: spotify_playlist_tracks)
  have u: "Spotify \<noteq> Unknown" by simp
  from no_match_result [OF deaf_url_platform u deaf_fetch ne deaf_loop]
  have "\<exists>evs. importPlaylist deaf_env True spotify_url [] =
           (Inr \<lparr>success = False, playlist = None, totalTracks = 2, matchedTracks = 0,
                 unmatchedTracks = [source_track ''A'' ''B'', source_track ''D'' ''E''],
                 error = Some (lit ''Could not match any tracks. Try a different playlist.'')\<rparr>,
            evs) \<and>
          storage_events evs = [] \<and> saving_events evs = []"
    by (simp add: spotify_playlist_tracks numeral_2_eq_2)
  with deaf_url_platform deaf_fetch deaf_loop show ?thesis
    by (simp only: simp_thms)
qed

text \<open>
  C9. In every successful import the playlist handed to \<open>updatePlaylist\<close>, which is
  the one in the result, has the matched tracks, and its \<open>coverArt\<close> is the cover art
  of the first of them, or \<open>undefined\<close> when that track has none.
\<close>

theorem saved_cover_art:
  assumes r: "importPlaylist e onProgress url tr = (Inr r, tr')"
    and s: "success r"
  shows "\<exists>pl m ms evs. playlist r = Some pl \<and> tr' = tr @ evs \<and> UpdatePlaylist pl \<in> set evs \<and>
           UserPlaylist.tracks pl = m # ms \<and>
           UserPlaylist.coverArt pl =
             (if truthy (PlaylistTrack.coverArt m) then PlaylistTrack.coverArt m else JUndefined)"
proof (cases rule: importPlaylist_paths [of e onProgress url tr])
  case (early msg)
  with r have "r = early_failure msg" by simp
  with s show ?thesis by (simp add: early_failure_def)
next
  case (raised x)
  with r show ?thesis by simp
next
  case (matched p oid pd tr2 matched unmatched tr4)
  note unfold = importPlaylist_matched [OF matched]
  from matched_trace [OF matched(3) matched(5)] obtain evs where evs: "tr4 = tr @ evs" by blast
  show ?thesis
  proof (cases matched)
    case Nil
    with r s unfold show ?thesis by auto
  next
    case (Cons m ms)
    with r s unfold evs show ?thesis
      by (auto simp: Let_def emit_append js_or_def split: option.splits if_splits)
  qed
qed

text \<open>
  A run whose first matched track has cover art, and one whose first matched track has
  none.
\<close>

theorem saved_cover_art_witness:
  "importPlaylist demo_env True spotify_url [] =
     (Inr (projr (fst (importPlaylist demo_env True spotify_url []))),
      snd (importPlaylist demo_env True spotify_url [])) \<and>
   success (projr (fst (importPlaylist demo_env True spotify_url []))) \<and>
   (\<exists>pl m ms evs.
      playlist (projr (fst (importPlaylist demo_env True spotify_url []))) = Some pl \<and>
      snd (importPlaylist demo_env True spotify_url []) = evs \<and> UpdatePlaylist pl \<in> set evs \<and>
      UserPlaylist.tracks pl = m # ms \<and>
      UserPlaylist.coverArt pl =
        (if truthy (PlaylistTrack.coverArt m) then PlaylistTrack.coverArt m else JUndefined)) \<and>
   map_option UserPlaylist.coverArt
     (playlist (projr (fst (importPlaylist demo_env True spotify_url [])))) =
     Some (JStr (lit ''cover.jpg'')) \<and>
   success (projr (fst (importPlaylist tidal_only_env True spotify_url []))) \<and>
   map_option (map PlaylistTrack.coverArt \<circ> UserPlaylist.tracks)
     (playlist (projr (fst (importPlaylist tidal_only_env True spotify_url [])))) =
     Some [JUndefined] \<and>
   map_option UserPlaylist.coverArt
     (playlist (projr (fst (importPlaylist tidal_only_env True spotify_url [])))) =
     Some JUndefined"
proof -
  let ?X = "importPlaylist demo_env True spotify_url []"
  have "\<not> isl (fst ?X)" by code_simp
  then have x: "?X = (Inr (projr (fst ?X)), snd ?X)"
    by (simp add: prod_eq_iff)
  have s: "success (projr (fst ?X))"
    by code_simp
  have c: "map_option UserPlaylist.coverArt (playlist (projr (fst ?X))) = Some (JStr (lit ''cover.jpg''))"
    by code_simp
  have t: "success (projr (fst (importPlaylist tidal_only_env True spotify_url [])))"
    "map_option (map PlaylistTrack.coverArt \<circ> UserPlaylist.tracks)
       (playlist (projr (fst (importPlaylist tidal_only_env True spotify_url [])))) =
     Some [JUndefined]"
    "map_option UserPlaylist.coverArt
       (playlist (projr (fst (importPlaylist tidal_only_env True spotify_url [])))) =
     Some JUndefined"
    by code_simp+
  from saved_cover_art [OF x s]
  have "\<exists>pl m ms evs.
      playlist (projr (fst ?X)) = Some pl \<and> snd ?X = evs \<and> UpdatePlaylist pl \<in> set evs \<and>
      UserPlaylist.tracks pl = m # ms \<and>
      UserPlaylist.coverArt pl =
        (if truthy (PlaylistTrack.coverArt m) then PlaylistTrack.coverArt m else JUndefined)"
    by simp
  with x s c t show ?thesis by (simp only: simp_thms)
qed

section \<open>The provider fetchers\<close>

text \<open>
  C7. Every track the Spotify fetcher returns has a title and an artist that are neither
  missing nor empty: the mapped tracks that lack one are dropped. The Apple Music and
  the YouTube Music fetchers return the mapped list as it is, one track for each item of
  the payload, whatever its title and artist.
\<close>

theorem fetcher_filtering:
  "(fst (fetchSpotifyPlaylist e i tr) = Some pd \<longrightarrow>
      list_all (\<lambda>t. truthy (ImportedTrack.title t) \<and> truthy (ImportedTrack.artist t))
        (playlist_data.tracks pd)) \<and>
   (fst (fetchAppleMusicPlaylist e s i tr) = Some pd \<longrightarrow>
      (\<exists>resp data raw.
         fetch e tr (apple_request s i) = Some resp \<and> json_body resp = Some data \<and>
         apple_track_data (opt_idx0 (fld data ''data'')) = JArr raw \<and>
         map_or_throw (apple_track e) raw = Some (playlist_data.tracks pd) \<and>
         length (playlist_data.tracks pd) = length raw)) \<and>
   (fst (fetchYouTubeMusicPlaylist e i tr) = Some pd \<longrightarrow>
      (\<exists>h inst resp data raw.
         inst \<in> set INVIDIOUS_INSTANCES \<and>
         fetch e h (invidious_request inst i) = Some resp \<and> json_body resp = Some data \<and>
         youtube_video_data data = JArr raw \<and>
         map_or_throw youtube_track raw = Some (playlist_data.tracks pd) \<and>
         length (playlist_data.tracks pd) = length raw))"
proof (intro conjI impI)
  assume "fst (fetchSpotifyPlaylist e i tr) = Some pd"
  from fetchSpotifyPlaylist_filtered [OF this]
  show "list_all (\<lambda>t. truthy (ImportedTrack.title t) \<and> truthy (ImportedTrack.artist t))
          (playlist_data.tracks pd)"
    by (simp add: has_title_and_artist_def [abs_def])
next
  assume "fst (fetchAppleMusicPlaylist e s i tr) = Some pd"
  then obtain resp where r: "fetch e tr (apple_request s i) = Some resp"
    "apple_attempt e resp = Some pd"
    by (auto simp: fetchAppleMusicPlaylist_def split: option.splits)
  from apple_attempt_unfiltered [OF r(2)] r(1)
  show "\<exists>resp data raw.
         fetch e tr (apple_request s i) = Some resp \<and> json_body resp = Some data \<and>
         apple_track_data (opt_idx0 (fld data ''data'')) = JArr raw \<and>
         map_or_throw (apple_track e) raw = Some (playlist_data.tracks pd) \<and>
         length (playlist_data.tracks pd) = length raw"
    by blast
next
  assume "fst (fetchYouTubeMusicPlaylist e i tr) = Some pd"
  then have "fst (try_instances e i INVIDIOUS_INSTANCES tr) = Some pd"
    by (simp add: fetchYouTubeMusicPlaylist_def)
  from try_instances_source [OF this] obtain h inst resp where
    r: "inst \<in> set INVIDIOUS_INSTANCES" "fetch e h (invidious_request inst i) = Some resp"
      "youtube_attempt resp = Some pd"
    by blast
  from youtube_attempt_unfiltered [OF r(3)] r(1,2)
  show "\<exists>h inst resp data raw.
         inst \<in> set INVIDIOUS_INSTANCES \<and>
         fetch e h (invidious_request inst i) = Some resp \<and> json_body resp = Some data \<and>
         youtube_video_data data = JArr raw \<and>
         map_or_throw youtube_track raw = Some (playlist_data.tracks pd) \<and>
         length (playlist_data.tracks pd) = length raw"
    by blast
qed

text \<open>
  Of three Spotify tracks the one without an artist is dropped; the Apple Music track
  without attributes and the video without a title stay.
\<close>

theorem fetcher_filtering_witness:
  "fst (fetchSpotifyPlaylist demo_env (lit ''abc'') []) = Some spotify_playlist \<and>
   list_all (\<lambda>t. truthy (ImportedTrack.title t) \<and> truthy (ImportedTrack.artist t))
     (playlist_data.tracks spotify_playlist) \<and>
   length (playlist_data.tracks spotify_playlist) = 2 \<and>
   fst (fetchAppleMusicPlaylist demo_env (lit ''us'') (lit ''pl.abc'') []) = Some apple_playlist \<and>
   (\<exists>raw. map_or_throw (apple_track demo_env) raw = Some (playlist_data.tracks apple_playlist) \<and>
          length (playlist_data.tracks apple_playlist) = length raw) \<and>
   map ImportedTrack.title (playlist_data.tracks apple_playlist) = [JStr (lit ''A''), JUndefined] \<and>
   fst (fetchYouTubeMusicPlaylist demo_env (lit ''PLabc'') []) = Some youtube_playlist \<and>
   (\<exists>raw. map_or_throw youtube_track raw = Some (playlist_data.tracks youtube_playlist) \<and>
          length (playlist_data.tracks youtube_playlist) = length raw) \<and>
   map ImportedTrack.title (playlist_data.tracks youtube_playlist) = [JStr (lit ''A''), JUndefined]"
proof -
  have sp: "fst (fetchSpotifyPlaylist demo_env (lit ''abc'') []) = Some spotify_playlist"
    and ap: "fst (fetchAppleMusicPlaylist demo_env (lit ''us'') (lit ''pl.abc'') []) = Some apple_playlist"
    and yt: "fst (fetchYouTubeMusicPlaylist demo_env (lit ''PLabc'') []) = Some youtube_playlist"
    by code_simp+
  have n: "length (playlist_data.tracks spotify_playlist) = 2"
    by (simp add: spotify_playlist_tracks)
  have ta: "map ImportedTrack.title (playlist_data.tracks apple_playlist) = [JStr (lit ''A''), JUndefined]"
    and ty: "map ImportedTrack.title (playlist_data.tracks youtube_playlist) = [JStr (lit ''A''), JUndefined]"
    by (simp_all add: apple_playlist_def youtube_playlist_def)
  from fetcher_filtering [of demo_env "lit ''abc''" "[]" spotify_playlist] sp
  have 1: "list_all (\<lambda>t. truthy (ImportedTrack.title t) \<and> truthy (ImportedTrack.artist t))
             (playlist_data.tracks spotify_playlist)"
    by blast
  from fetcher_filtering [of demo_env "lit ''pl.abc''" "[]" apple_playlist "lit ''us''"] ap
  have 2: "\<exists>raw. map_or_throw (apple_track demo_env) raw = Some (playlist_data.tracks apple_playlist) \<and>
          length (playlist_data.tracks apple_playlist) = length raw"
    by blast
  from fetcher_filtering [of demo_env "lit ''PLabc''" "[]" youtube_playlist] yt
  have 3: "\<exists>raw. map_or_throw youtube_track raw = Some (playlist_data.tracks youtube_playlist) \<and>
          length (playlist_data.tracks youtube_playlist) = length raw"
    by blast
  from sp ap yt n ta ty 1 2 3 show ?thesis
    by (simp only: simp_thms)
qed

text \<open>
  C3. The claim is that the Spotify fetcher stops at the first strategy that yields at
  least one track. Here the first endpoint lists one track under a field name the
  mapping does not read: the length test passes on the raw list, the filter then drops
  the track, and the fetcher returns an empty track list after the first request alone,
  although the second strategy yields a track for the same playlist.
\<close>

theorem fetchSpotifyPlaylist_stops_on_empty:
  "fetchSpotifyPlaylist stale_env (lit ''abc'') [] =
     (Some \<lparr>name = JStr (lit ''Spotify Playlist''), playlist_data.tracks = []\<rparr>,
      [Fetch (spotifydown_request (lit ''abc''))]) \<and>
   map_option (scraper_attempt stale_env)
     (fetch stale_env [Fetch (spotifydown_request (lit ''abc''))] (scraper_request (lit ''abc'')))
     = Some (Some \<lparr>name = JStr (lit ''Mix''),
                   playlist_data.tracks = [source_track ''A'' ''B'']\<rparr>) \<and>
   fst (importPlaylist stale_env True spotify_url []) =
     Inr (early_failure ''Could not fetch playlist. Make sure it's a public playlist.'')"
  by code_simp

end
